theory Spec2Isabelle
  imports Complex_Main "HOL-Library.Word" "HOL-Library.Log_Nat"
begin

section \<open>Template data of a direct visual odometry level (bpvo/template\_data\_.h)\<close>

text \<open>
  A shallow embedding of \<^verbatim>\<open>TemplateData_<ChannelsType, WarpType>\<close>: pixel selection
  (\<^verbatim>\<open>getValidPixelsLocations\<close>), extraction (\<^verbatim>\<open>setData\<close>) and residual
  evaluation (\<^verbatim>\<open>computeResiduals\<close>).

  Conventions of the embedding.
  \<^item> \<^verbatim>\<open>float\<close> values (intensities, depths, coordinates, Jacobian entries) are
    \<^typ>\<open>real\<close>: a finite \<^verbatim>\<open>float\<close> is the real number it denotes, infinities and
    NaN are not represented. The functions are given twice: first with exact
    arithmetic, which is enough for sizes, indices, frame conditions and integer
    coordinates, then with every \<^verbatim>\<open>float\<close> operation of the source taken from a
    record, of which IEEE 754 binary32 with rounding to nearest is an instance.
  \<^item> \<^verbatim>\<open>int\<close> and \<^verbatim>\<open>size_t\<close> values are \<^typ>\<open>int\<close> and \<^typ>\<open>nat\<close>: image sizes
    and pixel indices are assumed to fit the machine types.
  \<^item> \<^verbatim>\<open>uint8_t\<close> validity flags are \<^typ>\<open>8 word\<close>.
  \<^item> A read or write through a raw pointer outside its buffer, which is undefined
    behaviour in the source, is the result \<open>Inl OutOfBounds\<close>; the failing
    \<^verbatim>\<open>assert\<close> of \<^verbatim>\<open>setData\<close> is \<open>Inl AssertionFailed\<close>.
  \<^item> The two template parameters are records of the operations the source calls on
    them; the diagnostic \<^verbatim>\<open>printf\<close>/\<^verbatim>\<open>std::cout\<close> output of
    \<^verbatim>\<open>computeResiduals\<close> is not part of the state and is left out.
\<close>

subsection \<open>Results, buffers and loops\<close>

datatype error = AssertionFailed | OutOfBounds

definition bind_r :: "error + 'a \<Rightarrow> ('a \<Rightarrow> error + 'b) \<Rightarrow> error + 'b" where
  "bind_r m f = (case m of Inl e \<Rightarrow> Inl e | Inr v \<Rightarrow> f v)"

text \<open>\<^verbatim>\<open>p[i]\<close> as an rvalue, for a pointer \<open>p\<close> to the start of buffer \<open>buf\<close>.\<close>

definition rd :: "'a list \<Rightarrow> int \<Rightarrow> error + 'a" where
  "rd buf i = (if 0 \<le> i \<and> i < int (length buf) then Inr (buf ! nat i) else Inl OutOfBounds)"

text \<open>\<^verbatim>\<open>p[i] = v\<close>.\<close>

definition wr :: "'a list \<Rightarrow> nat \<Rightarrow> 'a \<Rightarrow> error + 'a list" where
  "wr buf i v = (if i < length buf then Inr (buf[i := v]) else Inl OutOfBounds)"

text \<open>
  \<^verbatim>\<open>std::vector::resize(n)\<close>: the first \<open>n\<close> elements are kept, new elements are
  \<open>fill\<close> (zero for arithmetic types, indeterminate for Eigen's fixed-size types).
\<close>

definition resize :: "nat \<Rightarrow> 'a \<Rightarrow> 'a list \<Rightarrow> 'a list" where
  "resize n fill xs = take n xs @ replicate (n - length xs) fill"

text \<open>\<^verbatim>\<open>for(i = 0; i < n; ++i) body\<close> over a state, stopping at the first fault:
  \<open>for_loop [0..<n] body s\<close>.\<close>

fun for_loop :: "nat list \<Rightarrow> (nat \<Rightarrow> 's \<Rightarrow> error + 's) \<Rightarrow> 's \<Rightarrow> error + 's" where
  "for_loop [] body s = Inr s"
| "for_loop (i # is) body s =
     (case body i s of Inl e \<Rightarrow> Inl e | Inr s' \<Rightarrow> for_loop is body s')"

subsection \<open>Images, channels and the two template parameters\<close>

text \<open>An image as the source reads it: \<^verbatim>\<open>rows\<close>, \<^verbatim>\<open>cols\<close> and the raw row-major
  buffer. Each channel and the saliency map are such images.\<close>

record image =
  rows :: int
  cols :: int
  ptr :: "real list"

text \<open>\<^verbatim>\<open>ChannelsType\<close>: the compile-time \<^verbatim>\<open>NumChannels\<close> and
  \<^verbatim>\<open>computeSaliencyMap()\<close>; \<^verbatim>\<open>channels[c]\<close>, \<^verbatim>\<open>channels.size()\<close> and
  \<^verbatim>\<open>channels.channelData(c)\<close> are the list of channel images.\<close>

record channels_type =
  NumChannels :: nat
  computeSaliencyMap :: "image list \<Rightarrow> image"

text \<open>\<^verbatim>\<open>WarpType\<close> over a warp state \<open>'w\<close>, points \<open>'pt\<close> and poses \<open>'ps\<close>.
  A \<^verbatim>\<open>WarpJacobian\<close> (2 x P, column-major) is the list of its P columns, a
  \<^verbatim>\<open>Jacobian\<close> (1 x P) the list of its P entries. The \<open>indeterminate\<close> fields are
  what a default-constructed Eigen object holds.\<close>

record ('w, 'pt, 'ps) warp_type =
  NumParams :: nat
  K :: "'w \<Rightarrow> nat \<Rightarrow> nat \<Rightarrow> real"
  makePoint :: "'w \<Rightarrow> real \<Rightarrow> real \<Rightarrow> real \<Rightarrow> 'pt"
  warpJacobianAtZero :: "'w \<Rightarrow> 'pt \<Rightarrow> (real \<times> real) list"
  setPose :: "'w \<Rightarrow> 'ps \<Rightarrow> 'w"
  project :: "'w \<Rightarrow> 'pt \<Rightarrow> real \<times> real"
  indeterminate_Point :: 'pt
  indeterminate_Jacobian :: "real list"

text \<open>The members of \<^verbatim>\<open>TemplateData_\<close>.\<close>

record ('w, 'pt) template_data =
  pyr_level :: int
  jacobians :: "real list list"
  points :: "'pt list"
  pixels :: "real list"
  warp :: 'w

definition numPoints :: "('w, 'pt) template_data \<Rightarrow> nat" where
  "numPoints td = length (points td)"

definition numPixels :: "('w, 'pt) template_data \<Rightarrow> nat" where
  "numPixels td = length (pixels td)"

subsection \<open>Pixel selection\<close>

text \<open>Modelled from the spec: the read \<^verbatim>\<open>smap(y, x)\<close> of the saliency map, row-major
  with stride \<^verbatim>\<open>cols\<close> (the image class is not in the source file).\<close>

definition smap_at :: "image \<Rightarrow> int \<Rightarrow> int \<Rightarrow> real" where
  "smap_at smap y x = ptr smap ! nat (y * cols smap + x)"

text \<open>Modelled from the spec: \<^verbatim>\<open>ValidPixelPredicate\<close> (bpvo/utils.h, not in the source
  file). A pixel is eligible if it has a positive depth reading and, when non-maximum
  suppression is enabled (a radius that is not negative), its saliency is a strict
  maximum among the pixels of the map within the radius.\<close>

definition is_local_max :: "image \<Rightarrow> int \<Rightarrow> int \<Rightarrow> int \<Rightarrow> bool" where
  "is_local_max smap radius y x =
     list_all (\<lambda>y'. list_all (\<lambda>x'.
         (y' = y \<and> x' = x) \<or> y' < 0 \<or> rows smap \<le> y' \<or> x' < 0 \<or> cols smap \<le> x' \<or>
         smap_at smap y' x' < smap_at smap y x)
       [x - radius .. x + radius]) [y - radius .. y + radius]"

definition is_pixel_valid :: "(int \<Rightarrow> int \<Rightarrow> real) \<Rightarrow> image \<Rightarrow> int \<Rightarrow> int \<Rightarrow> int \<Rightarrow> bool" where
  "is_pixel_valid dmap smap nms_radius y x =
     (0 < dmap y x \<and> (if 0 \<le> nms_radius then is_local_max smap nms_radius y x else True))"

text \<open>The inner loop of \<^verbatim>\<open>getValidPixelsLocations\<close>:
  \<^verbatim>\<open>for(int x = border; x < smap.cols - border - 1; ++x)\<close>, from the current \<open>x\<close>.\<close>

function scan_cols ::
  "(int \<Rightarrow> int \<Rightarrow> bool) \<Rightarrow> (int \<Rightarrow> int \<Rightarrow> real) \<Rightarrow> image \<Rightarrow> int \<Rightarrow> int \<Rightarrow> int \<Rightarrow>
   (int \<times> real) list \<Rightarrow> (int \<times> real) list" where
  "scan_cols is_valid dmap smap border y x ret =
     (if x < cols smap - border - 1
      then scan_cols is_valid dmap smap border y (x + 1)
             (if is_valid y x then ret @ [(y * cols smap + x, dmap y x)] else ret)
      else ret)"
  by pat_completeness auto
termination
  by (relation "measure (\<lambda>(is_valid, dmap, smap, border, y, x, ret).
        nat (cols smap - border - 1 - x))") auto

text \<open>The outer loop: \<^verbatim>\<open>for(int y = border; y < smap.rows - border - 1; ++y)\<close>.\<close>

function scan_rows ::
  "(int \<Rightarrow> int \<Rightarrow> bool) \<Rightarrow> (int \<Rightarrow> int \<Rightarrow> real) \<Rightarrow> image \<Rightarrow> int \<Rightarrow> int \<Rightarrow>
   (int \<times> real) list \<Rightarrow> (int \<times> real) list" where
  "scan_rows is_valid dmap smap border y ret =
     (if y < rows smap - border - 1
      then scan_rows is_valid dmap smap border (y + 1)
             (scan_cols is_valid dmap smap border y border ret)
      else ret)"
  by pat_completeness auto
termination
  by (relation "measure (\<lambda>(is_valid, dmap, smap, border, y, ret).
        nat (rows smap - border - 1 - y))") auto

definition getValidPixelsLocations ::
  "(int \<Rightarrow> int \<Rightarrow> real) \<Rightarrow> image \<Rightarrow> int \<Rightarrow> bool \<Rightarrow> (int \<times> real) list" where
  "getValidPixelsLocations dmap smap nms_radius do_nonmax_supp =
     (let is_valid = is_pixel_valid dmap smap (if do_nonmax_supp then nms_radius else - 1);
          border = max 2 nms_radius
      in scan_rows is_valid dmap smap border border [])"

text \<open>The margin as the specification words it: \<open>border\<close> pixels excluded at every
  edge of the map.\<close>

definition inside_margin :: "image \<Rightarrow> int \<Rightarrow> int \<Rightarrow> int \<Rightarrow> bool" where
  "inside_margin smap border y x =
     (border \<le> y \<and> y < rows smap - border \<and> border \<le> x \<and> x < cols smap - border)"

subsection \<open>Extraction: \<^verbatim>\<open>setData\<close>\<close>

text \<open>The disparity image \<^verbatim>\<open>cv::Mat D\<close> as \<^verbatim>\<open>setData\<close> uses it: whether
  \<^verbatim>\<open>D.type()\<close> is the float type, and the view
  \<^verbatim>\<open>DisparityPyramidLevel(D, pyr_level)(y, x)\<close> (a class that is not in the source
  file, taken as it is given).\<close>

record disparity =
  type_is_float :: bool
  DisparityPyramidLevel :: "int \<Rightarrow> int \<Rightarrow> int \<Rightarrow> real"

text \<open>\<^verbatim>\<open>AlgorithmParameters\<close>: the constant the source compares the map size with.\<close>

record algorithm_parameters =
  MIN_NUM_FOR_PIXEL_PSELECTION :: int

text \<open>Modelled from the spec: \<^verbatim>\<open>ind2sub(stride, ind, y, x)\<close> (bpvo/utils.h, not in the
  source file) converts the linear index back to (row, column) using the row stride.
  The result is the pair \<open>(y, x)\<close>.\<close>

definition ind2sub :: "int \<Rightarrow> int \<Rightarrow> int \<times> int" where
  "ind2sub stride ind = (ind div stride, ind mod stride)"

text \<open>\<^verbatim>\<open>_points[i] = _warp.makePoint(x, y, inds[i].second)\<close>.\<close>

definition set_point ::
  "('w, 'pt, 'ps) warp_type \<Rightarrow> 'w \<Rightarrow> int \<Rightarrow> (int \<times> real) list \<Rightarrow> nat \<Rightarrow> 'pt list \<Rightarrow> 'pt list" where
  "set_point W w stride inds i pts =
     (case ind2sub stride (fst (inds ! i)) of
        (y, x) \<Rightarrow> pts[i := makePoint W w (of_int x) (of_int y) (snd (inds ! i))])"

text \<open>\<^verbatim>\<open>ImageGradient(gx, gy) * Jw\<close>: a 1 x 2 row times a 2 x P matrix.\<close>

definition gradient_times :: "real \<times> real \<Rightarrow> (real \<times> real) list \<Rightarrow> real list" where
  "gradient_times g Jw = map (\<lambda>col. fst g * fst col + snd g * snd col) Jw"

text \<open>\<^verbatim>\<open>Jacobian::Zero()\<close>.\<close>

definition Jacobian_Zero :: "('w, 'pt, 'ps) warp_type \<Rightarrow> real list" where
  "Jacobian_Zero W = replicate (NumParams W) 0"

text \<open>The body of the inner loop of \<^verbatim>\<open>setData\<close> for channel buffer \<open>c_ptr\<close>, with
  \<open>off = c * inds.size()\<close>; the state is the pair of \<^verbatim>\<open>_jacobians\<close> and
  \<^verbatim>\<open>_pixels\<close>.\<close>

definition extract_pixel ::
  "real \<Rightarrow> real \<Rightarrow> int \<Rightarrow> real list \<Rightarrow> (real \<times> real) list list \<Rightarrow> (int \<times> real) list \<Rightarrow>
   nat \<Rightarrow> nat \<Rightarrow> real list list \<times> real list \<Rightarrow> error + real list list \<times> real list" where
  "extract_pixel Fx Fy stride c_ptr Jw inds off i s =
     (let ii = fst (inds ! i) in
      bind_r (rd c_ptr ii) (\<lambda>p.
      bind_r (wr (snd s) (off + i) p) (\<lambda>pix.
      bind_r (rd c_ptr (ii + 1)) (\<lambda>r.
      bind_r (rd c_ptr (ii - 1)) (\<lambda>l.
      bind_r (rd c_ptr (ii + stride)) (\<lambda>d.
      bind_r (rd c_ptr (ii - stride)) (\<lambda>u.
      bind_r (wr (fst s) (off + i) (gradient_times (Fx * (r - l), Fy * (d - u)) (Jw ! i)))
        (\<lambda>jac. Inr (jac, pix)))))))))"

text \<open>The body of \<^verbatim>\<open>for(int c = 0; c < channels.size(); ++c)\<close>.\<close>

definition extract_channel ::
  "real \<Rightarrow> real \<Rightarrow> int \<Rightarrow> image list \<Rightarrow> (real \<times> real) list list \<Rightarrow> (int \<times> real) list \<Rightarrow>
   nat \<Rightarrow> real list list \<times> real list \<Rightarrow> error + real list list \<times> real list" where
  "extract_channel Fx Fy stride channels Jw inds c s =
     for_loop [0..<length inds]
       (extract_pixel Fx Fy stride (ptr (channels ! c)) Jw inds (c * length inds)) s"

definition setData ::
  "algorithm_parameters \<Rightarrow> channels_type \<Rightarrow> ('w, 'pt, 'ps) warp_type \<Rightarrow> image list \<Rightarrow>
   disparity \<Rightarrow> ('w, 'pt) template_data \<Rightarrow> error + ('w, 'pt) template_data" where
  "setData AP CN W channels D td =
     (if \<not> type_is_float D then Inl AssertionFailed
      else
        let smap = computeSaliencyMap CN channels;
            do_nonmax_supp = (MIN_NUM_FOR_PIXEL_PSELECTION AP \<le> rows smap * cols smap);
            nms_radius = 1;
            inds = getValidPixelsLocations (DisparityPyramidLevel D (pyr_level td)) smap
                     nms_radius do_nonmax_supp;
            stride = cols smap;
            pts = fold (set_point W (warp td) stride inds) [0..<length inds]
                    (resize (length inds) (indeterminate_Point W) (points td));
            Jw = map (warpJacobianAtZero W (warp td)) pts;
            pix = resize (length pts * NumChannels CN) 0 (pixels td);
            jac = resize (length pts * NumChannels CN) (indeterminate_Jacobian W) (jacobians td);
            Fx = K W (warp td) 0 0 * 0.5;
            Fy = K W (warp td) 1 1 * 0.5
        in bind_r
             (for_loop [0..<length channels] (extract_channel Fx Fy stride channels Jw inds)
                (jac, pix))
             (\<lambda>s. Inr (td\<lparr>jacobians := fst s @ [Jacobian_Zero W], points := pts,
                             pixels := snd s\<rparr>)))"

subsection \<open>Residual evaluation: \<^verbatim>\<open>computeResiduals\<close>\<close>

text \<open>OpenCV's \<^verbatim>\<open>cvFloor\<close> (the alternative branch of the source uses
  \<^verbatim>\<open>std::floor\<close>): the largest integer not above the argument.\<close>

definition cvFloor :: "real \<Rightarrow> int" where
  "cvFloor v = \<lfloor>v\<rfloor>"

text \<open>The body of the first loop for one point: the integer base \<^verbatim>\<open>uv[i]\<close>, the flag
  \<^verbatim>\<open>valid[i]\<close> and the four coefficients \<^verbatim>\<open>interp_coeffs[i]\<close>.\<close>

definition point_geometry ::
  "('w, 'pt, 'ps) warp_type \<Rightarrow> 'w \<Rightarrow> int \<Rightarrow> int \<Rightarrow> 'pt \<Rightarrow>
   (int \<times> int) \<times> 8 word \<times> (real \<times> real \<times> real \<times> real)" where
  "point_geometry W w max_rows max_cols pt =
     (let x = project W w pt;
          xi = cvFloor (fst x + 0.5);
          yi = cvFloor (snd x + 0.5);
          xf = fst x - of_int xi;
          yf = snd x - of_int yi
      in ((xi, yi),
          (if 0 \<le> xi \<and> xi < max_cols \<and> 0 \<le> yi \<and> yi < max_rows then 1 else 0),
          ((1 - yf) * (1 - xf), (1 - yf) * xf, yf * (1 - xf), yf * xf)))"

definition geometry_step ::
  "('w, 'pt, 'ps) warp_type \<Rightarrow> 'w \<Rightarrow> int \<Rightarrow> int \<Rightarrow> 'pt list \<Rightarrow> nat \<Rightarrow>
   (int \<times> int) list \<times> 8 word list \<times> (real \<times> real \<times> real \<times> real) list \<Rightarrow>
   (int \<times> int) list \<times> 8 word list \<times> (real \<times> real \<times> real \<times> real) list" where
  "geometry_step W w max_rows max_cols pts i s =
     (case point_geometry W w max_rows max_cols (pts ! i) of
        (p, v, k) \<Rightarrow> ((fst s)[i := p], (fst (snd s))[i := v], (snd (snd s))[i := k]))"

text \<open>\<^verbatim>\<open>a.dot(b)\<close> of two \<^verbatim>\<open>Vector4f\<close>.\<close>

definition dot4 :: "real \<times> real \<times> real \<times> real \<Rightarrow> real \<times> real \<times> real \<times> real \<Rightarrow> real" where
  "dot4 a b =
     (case a of (a0, a1, a2, a3) \<Rightarrow> case b of (b0, b1, b2, b3) \<Rightarrow>
        a0 * b0 + a1 * b1 + a2 * b2 + a3 * b3)"

text \<open>The body of the inner loop of the second pass, with \<open>off = c * n\<close>, \<open>I0\<close> the
  stored \<^verbatim>\<open>_pixels\<close> and \<open>I_ptr\<close> the buffer of channel \<open>c\<close>.\<close>

definition residual_pixel ::
  "(int \<times> int) list \<Rightarrow> 8 word list \<Rightarrow> (real \<times> real \<times> real \<times> real) list \<Rightarrow> real list \<Rightarrow>
   real list \<Rightarrow> int \<Rightarrow> nat \<Rightarrow> nat \<Rightarrow> real list \<Rightarrow> error + real list" where
  "residual_pixel uv valid coeffs I0 I_ptr stride off i res =
     (if valid ! i \<noteq> 0
      then
        let ii = snd (uv ! i) * stride + fst (uv ! i) in
        bind_r (rd I_ptr ii) (\<lambda>a.
        bind_r (rd I_ptr (ii + 1)) (\<lambda>b.
        bind_r (rd I_ptr (ii + stride)) (\<lambda>c.
        bind_r (rd I_ptr (ii + stride + 1)) (\<lambda>d.
        bind_r (rd I0 (int (off + i))) (\<lambda>i0.
          wr res (off + i) (dot4 (coeffs ! i) (a, b, c, d) - i0))))))
      else wr res (off + i) 0)"

definition residual_channel ::
  "(int \<times> int) list \<Rightarrow> 8 word list \<Rightarrow> (real \<times> real \<times> real \<times> real) list \<Rightarrow> real list \<Rightarrow>
   image list \<Rightarrow> nat \<Rightarrow> nat \<Rightarrow> real list \<Rightarrow> error + real list" where
  "residual_channel uv valid coeffs I0 channels n c res =
     for_loop [0..<n]
       (residual_pixel uv valid coeffs I0 (ptr (channels ! c)) (cols (channels ! c)) (c * n)) res"

text \<open>The result is the store (with the warp's new pose), \<^verbatim>\<open>residuals\<close> and
  \<^verbatim>\<open>valid\<close>.\<close>

definition computeResiduals ::
  "('w, 'pt, 'ps) warp_type \<Rightarrow> image list \<Rightarrow> 'ps \<Rightarrow> real list \<Rightarrow> 8 word list \<Rightarrow>
   ('w, 'pt) template_data \<Rightarrow> error + ('w, 'pt) template_data \<times> real list \<times> 8 word list" where
  "computeResiduals W channels pose residuals valid td =
     bind_r (rd channels 0) (\<lambda>ch0.
       let max_rows = rows ch0 - 1;
           max_cols = cols ch0 - 1;
           n = numPoints td;
           w = setPose W (warp td) pose;
           g = fold (geometry_step W w max_rows max_cols (points td)) [0..<n]
                 (replicate n (0, 0), resize n 0 valid, replicate n (0, 0, 0, 0));
           res0 = resize (length (pixels td)) 0 residuals
       in bind_r
            (for_loop [0..<length channels]
               (residual_channel (fst g) (fst (snd g)) (snd (snd g)) (pixels td) channels n) res0)
            (\<lambda>res. Inr (td\<lparr>warp := w\<rparr>, res, fst (snd g))))"

subsection \<open>Well-formed arguments\<close>

text \<open>The contract of the channels as the specification gives it: every channel has
  the size of the first one and a buffer of \<open>rows * cols\<close> samples.\<close>

definition grid_ok :: "image list \<Rightarrow> bool" where
  "grid_ok channels =
     (channels \<noteq> [] \<and>
      list_all (\<lambda>ch. rows ch = rows (hd channels) \<and> cols ch = cols (hd channels) \<and>
                     0 \<le> rows ch \<and> 0 \<le> cols ch \<and>
                     int (length (ptr ch)) = rows ch * cols ch) channels)"

text \<open>\<^verbatim>\<open>channels.size()\<close> is the compile-time \<^verbatim>\<open>NumChannels\<close> and the saliency map
  is aligned with the image grid.\<close>

definition Channels_ok :: "channels_type \<Rightarrow> image list \<Rightarrow> bool" where
  "Channels_ok CN channels =
     (grid_ok channels \<and> length channels = NumChannels CN \<and>
      rows (computeSaliencyMap CN channels) = rows (hd channels) \<and>
      cols (computeSaliencyMap CN channels) = cols (hd channels))"


text \<open>The pixels \<^verbatim>\<open>setData\<close> selects: \<^verbatim>\<open>inds\<close>.\<close>

definition selected ::
  "algorithm_parameters \<Rightarrow> channels_type \<Rightarrow> image list \<Rightarrow> disparity \<Rightarrow> int \<Rightarrow> (int \<times> real) list" where
  "selected AP CN channels D level =
     (let smap = computeSaliencyMap CN channels
      in getValidPixelsLocations (DisparityPyramidLevel D level) smap 1
           (MIN_NUM_FOR_PIXEL_PSELECTION AP \<le> rows smap * cols smap))"

subsection \<open>What the loops over a buffer compute\<close>

text \<open>Writing \<open>f 0, ..., f (n - 1)\<close> at \<open>off, ..., off + n - 1\<close>, and \<open>m\<close> such
  blocks of \<open>n\<close> slots one after the other (the channel-major layout of the
  source).\<close>

definition fill_block :: "nat \<Rightarrow> nat \<Rightarrow> (nat \<Rightarrow> 'a) \<Rightarrow> 'a list \<Rightarrow> 'a list" where
  "fill_block off n f xs = fold (\<lambda>i xs. xs[off + i := f i]) [0..<n] xs"

definition fill_blocks :: "nat \<Rightarrow> nat \<Rightarrow> (nat \<Rightarrow> nat \<Rightarrow> 'a) \<Rightarrow> 'a list \<Rightarrow> 'a list" where
  "fill_blocks m n f xs = fold (\<lambda>c xs. fill_block (c * n) n (f c) xs) [0..<m] xs"

text \<open>The value the second pass writes at slot \<open>off + i\<close>, and the three arrays the
  first pass leaves (\<^verbatim>\<open>uv\<close>, \<^verbatim>\<open>valid\<close>, \<^verbatim>\<open>interp_coeffs\<close>).\<close>

definition residual_value ::
  "(int \<times> int) list \<Rightarrow> 8 word list \<Rightarrow> (real \<times> real \<times> real \<times> real) list \<Rightarrow> real list \<Rightarrow>
   real list \<Rightarrow> int \<Rightarrow> nat \<Rightarrow> nat \<Rightarrow> real" where
  "residual_value uv valid coeffs I0 I_ptr stride off i =
     (if valid ! i \<noteq> 0
      then
        let ii = snd (uv ! i) * stride + fst (uv ! i) in
        dot4 (coeffs ! i)
          (I_ptr ! nat ii, I_ptr ! nat (ii + 1), I_ptr ! nat (ii + stride),
           I_ptr ! nat (ii + stride + 1)) - I0 ! (off + i)
      else 0)"

definition geometry ::
  "('w, 'pt, 'ps) warp_type \<Rightarrow> 'w \<Rightarrow> image \<Rightarrow> 'pt list \<Rightarrow>
   (int \<times> int) list \<times> 8 word list \<times> (real \<times> real \<times> real \<times> real) list" where
  "geometry W w ch0 pts =
     (map (\<lambda>p. fst (point_geometry W w (rows ch0 - 1) (cols ch0 - 1) p)) pts,
      map (\<lambda>p. fst (snd (point_geometry W w (rows ch0 - 1) (cols ch0 - 1) p))) pts,
      map (\<lambda>p. snd (snd (point_geometry W w (rows ch0 - 1) (cols ch0 - 1) p))) pts)"

text \<open>The values \<^verbatim>\<open>setData\<close> stores for point \<open>i\<close> of a channel buffer, and the
  point it makes of a selected pixel.\<close>

definition pixel_value :: "real list \<Rightarrow> (int \<times> real) list \<Rightarrow> nat \<Rightarrow> real" where
  "pixel_value c_ptr inds i = c_ptr ! nat (fst (inds ! i))"

definition jacobian_value ::
  "real \<Rightarrow> real \<Rightarrow> int \<Rightarrow> real list \<Rightarrow> (real \<times> real) list list \<Rightarrow> (int \<times> real) list \<Rightarrow>
   nat \<Rightarrow> real list" where
  "jacobian_value Fx Fy stride c_ptr Jw inds i =
     (let ii = fst (inds ! i)
      in gradient_times
           (Fx * (c_ptr ! nat (ii + 1) - c_ptr ! nat (ii - 1)),
            Fy * (c_ptr ! nat (ii + stride) - c_ptr ! nat (ii - stride)))
           (Jw ! i))"

definition point_of ::
  "('w, 'pt, 'ps) warp_type \<Rightarrow> 'w \<Rightarrow> int \<Rightarrow> int \<times> real \<Rightarrow> 'pt" where
  "point_of W w stride ind =
     (case ind2sub stride (fst ind) of
        (y, x) \<Rightarrow> makePoint W w (of_int x) (of_int y) (snd ind))"

subsection \<open>The float arithmetic of the source\<close>

text \<open>
  The definitions so far compute with exact real numbers. The ones of this section are
  the same source functions with every \<^verbatim>\<open>float\<close> operation of the source taken from a
  record \<open>A\<close>: addition, subtraction and multiplication of two \<^verbatim>\<open>float\<close>s, the
  conversion of an \<^verbatim>\<open>int\<close> to \<^verbatim>\<open>float\<close>, \<^verbatim>\<open>cvFloor\<close>, and the two Eigen operations
  the source calls, \<^verbatim>\<open>Vector4f::dot\<close> and the product of a 1 x 2 row with a 2 x P
  matrix (the order in which Eigen adds the products depends on how it was built).
  A finite \<^verbatim>\<open>float\<close> is the real number it denotes; infinities and NaN are not
  represented.
\<close>

record arith =
  f_add :: "real \<Rightarrow> real \<Rightarrow> real"
  f_sub :: "real \<Rightarrow> real \<Rightarrow> real"
  f_mul :: "real \<Rightarrow> real \<Rightarrow> real"
  f_of_int :: "int \<Rightarrow> real"
  f_floor :: "real \<Rightarrow> int"
  f_dot4 :: "real \<times> real \<times> real \<times> real \<Rightarrow> real \<times> real \<times> real \<times> real \<Rightarrow> real"
  f_row_times :: "real \<times> real \<Rightarrow> (real \<times> real) list \<Rightarrow> real list"

text \<open>\<^verbatim>\<open>int xi = cvFloor(x[0] + 0.5f)\<close> and \<^verbatim>\<open>float xf = x[0] - xi\<close>.\<close>

definition base_cell :: "arith \<Rightarrow> real \<Rightarrow> int" where
  "base_cell A v = f_floor A (f_add A v (1/2))"

definition frac_offset :: "arith \<Rightarrow> real \<Rightarrow> real" where
  "frac_offset A v = f_sub A v (f_of_int A (base_cell A v))"

text \<open>The four coefficients \<^verbatim>\<open>interp_coeffs[i]\<close> from \<open>xf\<close> and \<open>yf\<close>.\<close>

definition interp_weights :: "arith \<Rightarrow> real \<Rightarrow> real \<Rightarrow> real \<times> real \<times> real \<times> real" where
  "interp_weights A xf yf =
     (f_mul A (f_sub A 1 yf) (f_sub A 1 xf),
      f_mul A (f_sub A 1 yf) xf,
      f_mul A yf (f_sub A 1 xf),
      f_mul A yf xf)"

text \<open>The body of the first loop of \<^verbatim>\<open>computeResiduals\<close> for one point.\<close>

definition point_geometry_fp ::
  "arith \<Rightarrow> ('w, 'pt, 'ps) warp_type \<Rightarrow> 'w \<Rightarrow> int \<Rightarrow> int \<Rightarrow> 'pt \<Rightarrow>
   (int \<times> int) \<times> 8 word \<times> (real \<times> real \<times> real \<times> real)" where
  "point_geometry_fp A W w max_rows max_cols pt =
     (let x = project W w pt;
          xi = base_cell A (fst x);
          yi = base_cell A (snd x);
          xf = frac_offset A (fst x);
          yf = frac_offset A (snd x)
      in ((xi, yi),
          (if 0 \<le> xi \<and> xi < max_cols \<and> 0 \<le> yi \<and> yi < max_rows then 1 else 0),
          interp_weights A xf yf))"

definition geometry_step_fp ::
  "arith \<Rightarrow> ('w, 'pt, 'ps) warp_type \<Rightarrow> 'w \<Rightarrow> int \<Rightarrow> int \<Rightarrow> 'pt list \<Rightarrow> nat \<Rightarrow>
   (int \<times> int) list \<times> 8 word list \<times> (real \<times> real \<times> real \<times> real) list \<Rightarrow>
   (int \<times> int) list \<times> 8 word list \<times> (real \<times> real \<times> real \<times> real) list" where
  "geometry_step_fp A W w max_rows max_cols pts i s =
     (case point_geometry_fp A W w max_rows max_cols (pts ! i) of
        (p, v, k) \<Rightarrow> ((fst s)[i := p], (fst (snd s))[i := v], (snd (snd s))[i := k]))"

text \<open>The body of the inner loop of the second pass.\<close>

definition residual_pixel_fp ::
  "arith \<Rightarrow> (int \<times> int) list \<Rightarrow> 8 word list \<Rightarrow> (real \<times> real \<times> real \<times> real) list \<Rightarrow>
   real list \<Rightarrow> real list \<Rightarrow> int \<Rightarrow> nat \<Rightarrow> nat \<Rightarrow> real list \<Rightarrow> error + real list" where
  "residual_pixel_fp A uv valid coeffs I0 I_ptr stride off i res =
     (if valid ! i \<noteq> 0
      then
        let ii = snd (uv ! i) * stride + fst (uv ! i) in
        bind_r (rd I_ptr ii) (\<lambda>a.
        bind_r (rd I_ptr (ii + 1)) (\<lambda>b.
        bind_r (rd I_ptr (ii + stride)) (\<lambda>c.
        bind_r (rd I_ptr (ii + stride + 1)) (\<lambda>d.
        bind_r (rd I0 (int (off + i))) (\<lambda>i0.
          wr res (off + i) (f_sub A (f_dot4 A (coeffs ! i) (a, b, c, d)) i0))))))
      else wr res (off + i) 0)"

definition residual_channel_fp ::
  "arith \<Rightarrow> (int \<times> int) list \<Rightarrow> 8 word list \<Rightarrow> (real \<times> real \<times> real \<times> real) list \<Rightarrow>
   real list \<Rightarrow> image list \<Rightarrow> nat \<Rightarrow> nat \<Rightarrow> real list \<Rightarrow> error + real list" where
  "residual_channel_fp A uv valid coeffs I0 channels n c res =
     for_loop [0..<n]
       (residual_pixel_fp A uv valid coeffs I0 (ptr (channels ! c)) (cols (channels ! c)) (c * n))
       res"

definition computeResiduals_fp ::
  "arith \<Rightarrow> ('w, 'pt, 'ps) warp_type \<Rightarrow> image list \<Rightarrow> 'ps \<Rightarrow> real list \<Rightarrow> 8 word list \<Rightarrow>
   ('w, 'pt) template_data \<Rightarrow> error + ('w, 'pt) template_data \<times> real list \<times> 8 word list" where
  "computeResiduals_fp A W channels pose residuals valid td =
     bind_r (rd channels 0) (\<lambda>ch0.
       let max_rows = rows ch0 - 1;
           max_cols = cols ch0 - 1;
           n = numPoints td;
           w = setPose W (warp td) pose;
           g = fold (geometry_step_fp A W w max_rows max_cols (points td)) [0..<n]
                 (replicate n (0, 0), resize n 0 valid, replicate n (0, 0, 0, 0));
           res0 = resize (length (pixels td)) 0 residuals
       in bind_r
            (for_loop [0..<length channels]
               (residual_channel_fp A (fst g) (fst (snd g)) (snd (snd g)) (pixels td) channels n)
               res0)
            (\<lambda>res. Inr (td\<lparr>warp := w\<rparr>, res, fst (snd g))))"

text \<open>The body of the inner loop of \<^verbatim>\<open>setData\<close>, the loop over the channels and
  \<^verbatim>\<open>setData\<close>.\<close>

definition extract_pixel_fp ::
  "arith \<Rightarrow> real \<Rightarrow> real \<Rightarrow> int \<Rightarrow> real list \<Rightarrow> (real \<times> real) list list \<Rightarrow>
   (int \<times> real) list \<Rightarrow> nat \<Rightarrow> nat \<Rightarrow> real list list \<times> real list \<Rightarrow>
   error + real list list \<times> real list" where
  "extract_pixel_fp A Fx Fy stride c_ptr Jw inds off i s =
     (let ii = fst (inds ! i) in
      bind_r (rd c_ptr ii) (\<lambda>p.
      bind_r (wr (snd s) (off + i) p) (\<lambda>pix.
      bind_r (rd c_ptr (ii + 1)) (\<lambda>r.
      bind_r (rd c_ptr (ii - 1)) (\<lambda>l.
      bind_r (rd c_ptr (ii + stride)) (\<lambda>d.
      bind_r (rd c_ptr (ii - stride)) (\<lambda>u.
      bind_r (wr (fst s) (off + i)
                (f_row_times A (f_mul A Fx (f_sub A r l), f_mul A Fy (f_sub A d u)) (Jw ! i)))
        (\<lambda>jac. Inr (jac, pix)))))))))"

definition extract_channel_fp ::
  "arith \<Rightarrow> real \<Rightarrow> real \<Rightarrow> int \<Rightarrow> image list \<Rightarrow> (real \<times> real) list list \<Rightarrow>
   (int \<times> real) list \<Rightarrow> nat \<Rightarrow> real list list \<times> real list \<Rightarrow>
   error + real list list \<times> real list" where
  "extract_channel_fp A Fx Fy stride channels Jw inds c s =
     for_loop [0..<length inds]
       (extract_pixel_fp A Fx Fy stride (ptr (channels ! c)) Jw inds (c * length inds)) s"

definition setData_fp ::
  "arith \<Rightarrow> algorithm_parameters \<Rightarrow> channels_type \<Rightarrow> ('w, 'pt, 'ps) warp_type \<Rightarrow>
   image list \<Rightarrow> disparity \<Rightarrow> ('w, 'pt) template_data \<Rightarrow> error + ('w, 'pt) template_data" where
  "setData_fp A AP CN W channels D td =
     (if \<not> type_is_float D then Inl AssertionFailed
      else
        let smap = computeSaliencyMap CN channels;
            do_nonmax_supp = (MIN_NUM_FOR_PIXEL_PSELECTION AP \<le> rows smap * cols smap);
            nms_radius = 1;
            inds = getValidPixelsLocations (DisparityPyramidLevel D (pyr_level td)) smap
                     nms_radius do_nonmax_supp;
            stride = cols smap;
            pts = fold (set_point W (warp td) stride inds) [0..<length inds]
                    (resize (length inds) (indeterminate_Point W) (points td));
            Jw = map (warpJacobianAtZero W (warp td)) pts;
            pix = resize (length pts * NumChannels CN) 0 (pixels td);
            jac = resize (length pts * NumChannels CN) (indeterminate_Jacobian W) (jacobians td);
            Fx = f_mul A (K W (warp td) 0 0) (1/2);
            Fy = f_mul A (K W (warp td) 1 1) (1/2)
        in bind_r
             (for_loop [0..<length channels] (extract_channel_fp A Fx Fy stride channels Jw inds)
                (jac, pix))
             (\<lambda>s. Inr (td\<lparr>jacobians := fst s @ [Jacobian_Zero W], points := pts,
                             pixels := snd s\<rparr>)))"

text \<open>What the loops of these functions write: the arrays of the first pass, the
  residual of a slot and the Jacobian of a slot.\<close>

definition geometry_fp ::
  "arith \<Rightarrow> ('w, 'pt, 'ps) warp_type \<Rightarrow> 'w \<Rightarrow> image \<Rightarrow> 'pt list \<Rightarrow>
   (int \<times> int) list \<times> 8 word list \<times> (real \<times> real \<times> real \<times> real) list" where
  "geometry_fp A W w ch0 pts =
     (map (\<lambda>p. fst (point_geometry_fp A W w (rows ch0 - 1) (cols ch0 - 1) p)) pts,
      map (\<lambda>p. fst (snd (point_geometry_fp A W w (rows ch0 - 1) (cols ch0 - 1) p))) pts,
      map (\<lambda>p. snd (snd (point_geometry_fp A W w (rows ch0 - 1) (cols ch0 - 1) p))) pts)"

definition residual_value_fp ::
  "arith \<Rightarrow> (int \<times> int) list \<Rightarrow> 8 word list \<Rightarrow> (real \<times> real \<times> real \<times> real) list \<Rightarrow>
   real list \<Rightarrow> real list \<Rightarrow> int \<Rightarrow> nat \<Rightarrow> nat \<Rightarrow> real" where
  "residual_value_fp A uv valid coeffs I0 I_ptr stride off i =
     (if valid ! i \<noteq> 0
      then
        let ii = snd (uv ! i) * stride + fst (uv ! i) in
        f_sub A
          (f_dot4 A (coeffs ! i)
             (I_ptr ! nat ii, I_ptr ! nat (ii + 1), I_ptr ! nat (ii + stride),
              I_ptr ! nat (ii + stride + 1)))
          (I0 ! (off + i))
      else 0)"


subsection \<open>Two arithmetics: exact, and IEEE 754 binary32\<close>

text \<open>Exact arithmetic: the functions of the first sections.\<close>

definition exact :: arith where
  "exact =
     \<lparr>f_add = (+), f_sub = (-), f_mul = (*), f_of_int = real_of_int, f_floor = floor,
      f_dot4 = dot4, f_row_times = gradient_times\<rparr>"

text \<open>
  Binary32 with rounding to nearest, ties to even: a result is rounded to a multiple of
  the unit in the last place \<open>2 ^ (max \<lfloor>log\<^sub>2 |x|\<rfloor> (- 126) - 23)\<close>, which covers normal
  and subnormal numbers. Overflow to infinity is not represented: the definitions are
  meant for results below \<open>2 ^ 128\<close> in magnitude. \<open>cvFloor32\<close> is \<^verbatim>\<open>cvFloor\<close> for
  arguments whose floor fits an \<^verbatim>\<open>int\<close>; the conversion of other arguments is
  undefined in the source and is not represented.
\<close>

definition pow2 :: "int \<Rightarrow> real" where
  "pow2 e = (if 0 \<le> e then 2 ^ nat e else 1 / 2 ^ nat (- e))"

definition round_to_even :: "real \<Rightarrow> int" where
  "round_to_even q =
     (let f = \<lfloor>q\<rfloor>; d = q - of_int f
      in if d < 1/2 then f else if 1/2 < d then f + 1 else if even f then f else f + 1)"

definition ulp_exponent :: "real \<Rightarrow> int" where
  "ulp_exponent x = max (bitlen \<lfloor>\<bar>x\<bar> * 2 ^ 149\<rfloor> - 150) (- 126) - 23"

definition round32 :: "real \<Rightarrow> real" where
  "round32 x = of_int (round_to_even (x / pow2 (ulp_exponent x))) * pow2 (ulp_exponent x)"

definition cvFloor32 :: "real \<Rightarrow> int" where
  "cvFloor32 v = \<lfloor>v\<rfloor>"

text \<open>Eigen's operations in binary32, adding the products pairwise.\<close>

definition dot4_32 :: "real \<times> real \<times> real \<times> real \<Rightarrow> real \<times> real \<times> real \<times> real \<Rightarrow> real" where
  "dot4_32 a b =
     (case a of (a0, a1, a2, a3) \<Rightarrow> case b of (b0, b1, b2, b3) \<Rightarrow>
        round32 (round32 (round32 (a0 * b0) + round32 (a1 * b1)) +
                 round32 (round32 (a2 * b2) + round32 (a3 * b3))))"

definition row_times_32 :: "real \<times> real \<Rightarrow> (real \<times> real) list \<Rightarrow> real list" where
  "row_times_32 g Jw =
     map (\<lambda>col. round32 (round32 (fst g * fst col) + round32 (snd g * snd col))) Jw"

definition binary32 :: arith where
  "binary32 =
     \<lparr>f_add = (\<lambda>x y. round32 (x + y)),
      f_sub = (\<lambda>x y. round32 (x - y)),
      f_mul = (\<lambda>x y. round32 (x * y)),
      f_of_int = (\<lambda>i. round32 (real_of_int i)),
      f_floor = cvFloor32,
      f_dot4 = dot4_32,
      f_row_times = row_times_32\<rparr>"

subsection \<open>A small instance\<close>

text \<open>Two channels of 6 rows and 7 columns, a warp that shifts image coordinates by
  its pose, and a disparity that is positive everywhere: the scan selects the two
  pixels (2, 2) and (2, 3).\<close>

definition ex_channels :: "image list" where
  "ex_channels =
     [\<lparr>rows = 6, cols = 7, ptr = map (\<lambda>k. real k) [0..<42]\<rparr>,
      \<lparr>rows = 6, cols = 7, ptr = map (\<lambda>k. real (k * k)) [0..<42]\<rparr>]"

definition ex_CN :: channels_type where
  "ex_CN = \<lparr>NumChannels = 2, computeSaliencyMap = (\<lambda>chs. hd chs)\<rparr>"

definition ex_AP :: algorithm_parameters where
  "ex_AP = \<lparr>MIN_NUM_FOR_PIXEL_PSELECTION = 1000\<rparr>"

definition ex_D :: disparity where
  "ex_D = \<lparr>type_is_float = True, DisparityPyramidLevel = (\<lambda>l y x. 1)\<rparr>"

definition ex_W :: "(real \<times> real, real \<times> real \<times> real, real \<times> real) warp_type" where
  "ex_W =
     \<lparr>NumParams = 2,
      K = (\<lambda>w i j. if i = j then 2 else 0),
      makePoint = (\<lambda>w x y d. (x, y, d)),
      warpJacobianAtZero = (\<lambda>w p. [(1, 0), (0, 1)]),
      setPose = (\<lambda>w ps. ps),
      project = (\<lambda>w p. (fst p + fst w, fst (snd p) + snd w)),
      indeterminate_Point = (0, 0, 0),
      indeterminate_Jacobian = []\<rparr>"

definition ex_td0 :: "(real \<times> real, real \<times> real \<times> real) template_data" where
  "ex_td0 = \<lparr>pyr_level = 0, jacobians = [], points = [], pixels = [], warp = (0, 0)\<rparr>"

text \<open>The store \<^verbatim>\<open>setData\<close> leaves for this instance.\<close>

definition ex_td :: "(real \<times> real, real \<times> real \<times> real) template_data" where
  "ex_td =
     \<lparr>pyr_level = 0,
      jacobians = [[2, 14], [2, 14], [64, 448], [68, 476], [0, 0]],
      points = [(2, 2, 1), (3, 2, 1)],
      pixels = [16, 17, 256, 289],
      warp = (0, 0)\<rparr>"

text \<open>A map of 7 rows and 7 columns with positive depth everywhere.\<close>

definition ex_smap :: image where
  "ex_smap = \<lparr>rows = 7, cols = 7, ptr = replicate 49 0\<rparr>"

definition ex_dmap :: "int \<Rightarrow> int \<Rightarrow> real" where
  "ex_dmap y x = 1"

subsection \<open>Instances for binary32\<close>



text \<open>One channel of 2 rows and 2 columns, whose only cell with a footprint is
  \<open>(0, 0)\<close>, and a store with the point above and the point \<open>(0, 0)\<close>; and a store
  with one point at \<open>x = 1/4\<close>, where the source's operations are exact.\<close>

definition ex32_narrow :: "image list" where
  "ex32_narrow = [\<lparr>rows = 2, cols = 2, ptr = [1, 2, 3, 4]\<rparr>]"

definition ex32_narrow_td :: "(real \<times> real, real \<times> real \<times> real) template_data" where
  "ex32_narrow_td =
     \<lparr>pyr_level = 0, jacobians = [[0, 0], [0, 0], [0, 0]],
      points = [(16777215 / 33554432, 0, 1), (0, 0, 1)],
      pixels = [7, 0], warp = (0, 0)\<rparr>"




subsection \<open>Pixel selection: the result of the scan\<close>

declare scan_cols.simps [simp del] scan_rows.simps [simp del]

lemma scan_cols_eq:
  "scan_cols is_valid dmap smap border y x ret =
     ret @ map (\<lambda>x. (y * cols smap + x, dmap y x))
               (filter (is_valid y) [x .. cols smap - border - 2])"
proof (induction is_valid dmap smap border y x ret rule: scan_cols.induct)
  case (1 is_valid dmap smap border y x ret)
  show ?case
  proof (cases "x < cols smap - border - 1")
    case True
    then have u: "[x .. cols smap - border - 2] = x # [x + 1 .. cols smap - border - 2]"
      by (simp add: upto_rec1)
    show ?thesis
      using True "1.IH" [OF True] by (subst scan_cols.simps) (simp add: u)
  next
    case False
    then show ?thesis by (subst scan_cols.simps) simp
  qed
qed

lemma scan_rows_eq:
  "scan_rows is_valid dmap smap border y ret =
     ret @ concat (map (\<lambda>y. map (\<lambda>x. (y * cols smap + x, dmap y x))
                              (filter (is_valid y) [border .. cols smap - border - 2]))
                       [y .. rows smap - border - 2])"
proof (induction is_valid dmap smap border y ret rule: scan_rows.induct)
  case (1 is_valid dmap smap border y ret)
  show ?case
  proof (cases "y < rows smap - border - 1")
    case True
    then have u: "[y .. rows smap - border - 2] = y # [y + 1 .. rows smap - border - 2]"
      by (simp add: upto_rec1)
    show ?thesis
      using True "1.IH" [OF True] by (subst scan_rows.simps) (simp add: u scan_cols_eq)
  next
    case False
    then show ?thesis by (subst scan_rows.simps) simp
  qed
qed

subsection \<open>Buffers and loops\<close>

lemma bind_r_Inr [simp]: "bind_r (Inr v) f = f v"
  by (simp add: bind_r_def)

lemma bind_r_Inl [simp]: "bind_r (Inl e) f = Inl e"
  by (simp add: bind_r_def)

lemma rd_in: "0 \<le> i \<Longrightarrow> i < int (length buf) \<Longrightarrow> rd buf i = Inr (buf ! nat i)"
  by (simp add: rd_def)

lemma wr_in: "i < length buf \<Longrightarrow> wr buf i v = Inr (buf[i := v])"
  by (simp add: wr_def)

lemma length_resize [simp]: "length (resize n d xs) = n"
  by (simp add: resize_def)

lemma for_loop_fold:
  assumes "I s" and "\<And>i s. i \<in> set is \<Longrightarrow> I s \<Longrightarrow> body i s = Inr (g i s) \<and> I (g i s)"
  shows "for_loop is body s = Inr (fold g is s) \<and> I (fold g is s)"
  using assms
proof (induction "is" arbitrary: s)
  case Nil
  then show ?case by simp
next
  case (Cons i "is")
  have step: "body i s = Inr (g i s) \<and> I (g i s)"
    using Cons.prems by simp
  have "for_loop is body (g i s) = Inr (fold g is (g i s)) \<and> I (fold g is (g i s))"
    using step Cons.prems(2) by (intro Cons.IH) auto
  then show ?case using step by simp
qed

lemma length_fill_block [simp]: "length (fill_block off n f xs) = length xs"
  unfolding fill_block_def by (induction n) auto

lemma nth_fill_block:
  "k < length xs \<Longrightarrow>
   fill_block off n f xs ! k = (if off \<le> k \<and> k < off + n then f (k - off) else xs ! k)"
proof (induction n)
  case 0
  then show ?case by (auto simp: fill_block_def)
next
  case (Suc n)
  have unf: "fill_block off (Suc n) f xs = (fill_block off n f xs)[off + n := f n]"
    by (simp add: fill_block_def)
  show ?case
  proof (cases "k = off + n")
    case True
    then show ?thesis using Suc.prems by (simp add: unf)
  next
    case False
    then show ?thesis using Suc by (auto simp: unf)
  qed
qed

lemma length_fill_blocks [simp]: "length (fill_blocks m n f xs) = length xs"
  unfolding fill_blocks_def by (induction m) auto

lemma block_index_less: "c < m \<Longrightarrow> i < n \<Longrightarrow> c * n + i < m * (n::nat)"
proof -
  assume "c < m" "i < n"
  then have "Suc c * n \<le> m * n" by (intro mult_le_mono1) simp
  then show ?thesis using \<open>i < n\<close> by simp
qed

lemma nth_fill_blocks:
  "c < m \<Longrightarrow> i < n \<Longrightarrow> m * n \<le> length xs \<Longrightarrow> fill_blocks m n f xs ! (c * n + i) = f c i"
proof (induction m)
  case 0
  then show ?case by simp
next
  case (Suc m)
  have lt: "c * n + i < length xs"
    using block_index_less [OF Suc.prems(1,2)] Suc.prems(3) by simp
  have unf: "fill_blocks (Suc m) n f xs = fill_block (m * n) n (f m) (fill_blocks m n f xs)"
    by (simp add: fill_blocks_def)
  show ?case
  proof (cases "c < m")
    case True
    then have "c * n + i < m * n" using Suc.prems(2) by (rule block_index_less)
    moreover have "fill_blocks m n f xs ! (c * n + i) = f c i"
      using True Suc by simp
    ultimately show ?thesis using lt by (simp add: unf nth_fill_block)
  next
    case False
    then have "c = m" using Suc.prems(1) by simp
    then show ?thesis using lt Suc.prems(2) by (simp add: unf nth_fill_block)
  qed
qed

lemma fill_block_0_eq_map: "length xs = n \<Longrightarrow> fill_block 0 n f xs = map f [0..<n]"
  by (rule nth_equalityI) (simp_all add: nth_fill_block)

lemma fold_pair_fill:
  "fold (\<lambda>i s. ((fst s)[off + i := f i], (snd s)[off + i := g i])) is s =
     (fold (\<lambda>i xs. xs[off + i := f i]) is (fst s), fold (\<lambda>i xs. xs[off + i := g i]) is (snd s))"
  by (induction "is" arbitrary: s) auto

subsection \<open>Pixel selection: the claims\<close>

lemma sorted_wrt_concat_map:
  "sorted_wrt R ys \<Longrightarrow> (\<And>y. y \<in> set ys \<Longrightarrow> sorted_wrt P (f y)) \<Longrightarrow>
   (\<And>y y' a b. R y y' \<Longrightarrow> y \<in> set ys \<Longrightarrow> y' \<in> set ys \<Longrightarrow>
      a \<in> set (f y) \<Longrightarrow> b \<in> set (f y') \<Longrightarrow> P a b) \<Longrightarrow>
   sorted_wrt P (concat (map f ys))"
proof (induction ys)
  case Nil
  then show ?case by simp
next
  case (Cons y ys)
  have "sorted_wrt P (concat (map f ys))"
    using Cons.prems by (intro Cons.IH) auto
  moreover have "sorted_wrt P (f y)" using Cons.prems(2) by simp
  moreover have "\<forall>a\<in>set (f y). \<forall>b\<in>set (concat (map f ys)). P a b"
    using Cons.prems(1,3) by fastforce
  ultimately show ?case by (simp add: sorted_wrt_append)
qed

text \<open>Within the scanned columns, the linear index grows with the row.\<close>

lemma row_major_less:
  fixes y y' x x' c b :: int
  assumes "y < y'" "b \<le> x'" "b \<le> x" "x \<le> c - b - 2" "2 \<le> b"
  shows "y * c + x < y' * c + x'"
proof -
  have c: "0 < c" using assms by linarith
  have "(y + 1) * c \<le> y' * c" using assms(1) c by (intro mult_right_mono) auto
  then have "y * c + c \<le> y' * c" by (simp add: algebra_simps)
  then show ?thesis using assms by linarith
qed

lemma sorted_upto_filter: "sorted_wrt (<) (filter P [i..j])"
  by (simp add: sorted_wrt_filter)

lemma is_pixel_valid_no_nms: "is_pixel_valid dmap smap (- 1) y = (\<lambda>x. 0 < dmap y x)"
  by (simp add: fun_eq_iff is_pixel_valid_def)

text \<open>
  C7, with the margin the two loops implement. With non-maximum suppression disabled,
  pixel selection returns exactly the pixels \<open>(y, x)\<close> with a positive depth reading and
  \<open>border \<le> y \<le> rows - border - 2\<close>, \<open>border \<le> x \<le> cols - border - 2\<close>, where
  \<open>border = max 2 nms_radius\<close>: the margin is \<open>border\<close> pixels at the top and left
  edges and \<open>border + 1\<close> pixels at the bottom and right edges. Each such pixel is
  returned once, as its linear index \<open>y * cols + x\<close> paired with its depth, in
  row-major order: the indices of the result increase strictly.
\<close>

theorem selection_without_nms:
  "getValidPixelsLocations dmap smap nms_radius False =
     concat (map (\<lambda>y. map (\<lambda>x. (y * cols smap + x, dmap y x))
                          (filter (\<lambda>x. 0 < dmap y x)
                             [max 2 nms_radius .. cols smap - max 2 nms_radius - 2]))
                 [max 2 nms_radius .. rows smap - max 2 nms_radius - 2]) \<and>
   sorted_wrt (<) (map fst (getValidPixelsLocations dmap smap nms_radius False))"
proof -
  let ?b = "max 2 nms_radius"
  let ?f = "\<lambda>y. map (\<lambda>x. y * cols smap + x)
                     (filter (\<lambda>x. 0 < dmap y x) [?b .. cols smap - ?b - 2])"
  have eq: "getValidPixelsLocations dmap smap nms_radius False =
     concat (map (\<lambda>y. map (\<lambda>x. (y * cols smap + x, dmap y x))
                          (filter (\<lambda>x. 0 < dmap y x) [?b .. cols smap - ?b - 2]))
                 [?b .. rows smap - ?b - 2])"
    by (simp add: getValidPixelsLocations_def scan_rows_eq Let_def is_pixel_valid_no_nms)
  have "sorted_wrt (<) (concat (map ?f [?b .. rows smap - ?b - 2]))"
  proof (rule sorted_wrt_concat_map [where R = "(<)"])
    show "sorted_wrt (<) [?b .. rows smap - ?b - 2]" by simp
  next
    fix y
    have "sorted_wrt (<) (filter (\<lambda>x. 0 < dmap y x) [?b .. cols smap - ?b - 2])"
      by (rule sorted_upto_filter)
    then show "sorted_wrt (<) (?f y)"
      by (simp add: sorted_wrt_map)
  next
    fix y y' a b
    assume "y < y'" "a \<in> set (?f y)" "b \<in> set (?f y')"
    then show "a < b" by (auto intro!: row_major_less [where b = ?b])
  qed
  moreover have "map fst (getValidPixelsLocations dmap smap nms_radius False) =
      concat (map ?f [?b .. rows smap - ?b - 2])"
    by (simp add: eq map_concat comp_def)
  ultimately show ?thesis using eq by simp
qed

theorem selection_without_nms_witness:
  "getValidPixelsLocations ex_dmap ex_smap 1 False = [(16, 1), (17, 1), (23, 1), (24, 1)]"
  using selection_without_nms [of ex_dmap ex_smap 1]
  by (simp add: ex_dmap_def ex_smap_def upto_rec_numeral)

text \<open>
  C7 with a margin of \<open>max 2 nms_radius\<close> pixels at every edge does not hold: in a map
  of 7 rows and 7 columns with positive depth everywhere and \<open>nms_radius = 1\<close>, the
  pixel (4, 4) lies inside a margin of 2 pixels from every edge and is not selected,
  while the pixel (2, 2), two pixels from the top and left edges, is selected.
\<close>

theorem selection_margin_counterexample:
  "inside_margin ex_smap (max 2 1) 4 4 \<and> 0 < ex_dmap 4 4 \<and>
   (4 * cols ex_smap + 4, ex_dmap 4 4) \<notin>
     set (getValidPixelsLocations ex_dmap ex_smap 1 False) \<and>
   (2 * cols ex_smap + 2, ex_dmap 2 2) \<in>
     set (getValidPixelsLocations ex_dmap ex_smap 1 False)"
  by (simp add: inside_margin_def getValidPixelsLocations_def scan_rows_eq Let_def
      is_pixel_valid_no_nms ex_dmap_def ex_smap_def upto_rec_numeral)

subsection \<open>Residual evaluation: what \<^verbatim>\<open>computeResiduals\<close> returns\<close>

lemma fold_triple_fill:
  "fold (\<lambda>i s. ((fst s)[i := f i], (fst (snd s))[i := g i], (snd (snd s))[i := h i])) is s =
     (fold (\<lambda>i xs. xs[i := f i]) is (fst s),
      fold (\<lambda>i xs. xs[i := g i]) is (fst (snd s)),
      fold (\<lambda>i xs. xs[i := h i]) is (snd (snd s)))"
  by (induction "is" arbitrary: s) auto

lemma fold_update_eq_map:
  "length xs = n \<Longrightarrow> fold (\<lambda>i xs. xs[i := f i]) [0..<n] xs = map f [0..<n]"
  using fill_block_0_eq_map [of xs n f] by (simp add: fill_block_def)

lemma geometry_pass:
  assumes "length uv0 = n" "length v0 = n" "length k0 = n"
  shows "fold (geometry_step W w mr mc pts) [0..<n] (uv0, v0, k0) =
     (map (\<lambda>i. fst (point_geometry W w mr mc (pts ! i))) [0..<n],
      map (\<lambda>i. fst (snd (point_geometry W w mr mc (pts ! i)))) [0..<n],
      map (\<lambda>i. snd (snd (point_geometry W w mr mc (pts ! i)))) [0..<n])"
proof -
  have "geometry_step W w mr mc pts =
      (\<lambda>i s. ((fst s)[i := fst (point_geometry W w mr mc (pts ! i))],
              (fst (snd s))[i := fst (snd (point_geometry W w mr mc (pts ! i)))],
              (snd (snd s))[i := snd (snd (point_geometry W w mr mc (pts ! i)))]))"
    by (simp add: fun_eq_iff geometry_step_def split_beta)
  then show ?thesis
    using assms by (simp add: fold_triple_fill fold_update_eq_map)
qed

text \<open>The footprint of a base cell inside the margin lies in the buffer.\<close>

lemma footprint_in_bounds:
  fixes xi yi r c :: int
  assumes "0 \<le> xi" "xi < c - 1" "0 \<le> yi" "yi < r - 1"
  shows "0 \<le> yi * c + xi \<and> yi * c + xi + c + 1 < r * c"
proof -
  have c: "0 \<le> c" using assms by linarith
  have "0 \<le> yi * c" using assms(3) c by simp
  moreover have "(yi + 1) * c \<le> (r - 1) * c"
    using assms(4) c by (intro mult_right_mono) auto
  then have "yi * c + c \<le> r * c - c" by (simp add: algebra_simps)
  ultimately show ?thesis using assms by linarith
qed

lemma rd_nat: "k < length buf \<Longrightarrow> rd buf (int k) = Inr (buf ! k)"
  by (simp add: rd_def)

lemma residual_pixel_ok:
  assumes "off + i < length res" "off + i < length I0"
    and "valid ! i \<noteq> 0 \<Longrightarrow>
          0 \<le> snd (uv ! i) * stride + fst (uv ! i) \<and>
          snd (uv ! i) * stride + fst (uv ! i) + stride + 1 < int (length I_ptr)"
    and "0 \<le> stride"
  shows "residual_pixel uv valid coeffs I0 I_ptr stride off i res =
           Inr (res[off + i := residual_value uv valid coeffs I0 I_ptr stride off i])"
proof (cases "valid ! i \<noteq> 0")
  case True
  then show ?thesis
    using assms rd_nat [of "off + i" I0]
    by (simp add: residual_pixel_def residual_value_def Let_def rd_in wr_in del: of_nat_add)
next
  case False
  then show ?thesis
    using assms by (simp add: residual_pixel_def residual_value_def wr_in)
qed

lemma residual_channel_ok:
  assumes "c * n + n \<le> length res" "c * n + n \<le> length I0" "0 \<le> stride"
    and "\<And>i. i < n \<Longrightarrow> valid ! i \<noteq> 0 \<Longrightarrow>
          0 \<le> snd (uv ! i) * cols (channels ! c) + fst (uv ! i) \<and>
          snd (uv ! i) * cols (channels ! c) + fst (uv ! i) + cols (channels ! c) + 1
            < int (length (ptr (channels ! c)))"
    and "stride = cols (channels ! c)"
  shows "residual_channel uv valid coeffs I0 channels n c res =
           Inr (fill_block (c * n) n
                  (residual_value uv valid coeffs I0 (ptr (channels ! c)) (cols (channels ! c)) (c * n))
                  res) "
proof -
  let ?g = "\<lambda>i xs. xs[c * n + i :=
      residual_value uv valid coeffs I0 (ptr (channels ! c)) (cols (channels ! c)) (c * n) i]"
  have "for_loop [0..<n]
          (residual_pixel uv valid coeffs I0 (ptr (channels ! c)) (cols (channels ! c)) (c * n)) res =
        Inr (fold ?g [0..<n] res) \<and> length (fold ?g [0..<n] res) = length res"
  proof (rule for_loop_fold [where I = "\<lambda>xs. length xs = length res"])
    show "length res = length res" by simp
  next
    fix i and xs :: "real list"
    assume i: "i \<in> set [0..<n]" and len: "length xs = length res"
    then have "residual_pixel uv valid coeffs I0 (ptr (channels ! c)) (cols (channels ! c)) (c * n) i xs =
        Inr (?g i xs)"
      using assms by (intro residual_pixel_ok) auto
    then show "residual_pixel uv valid coeffs I0 (ptr (channels ! c)) (cols (channels ! c)) (c * n) i xs =
        Inr (?g i xs) \<and> length (?g i xs) = length res"
      using len by simp
  qed
  then show ?thesis by (simp add: residual_channel_def fill_block_def)
qed

lemma map_nth_upt: "map (\<lambda>i. f (xs ! i)) [0..<length xs] = map f xs"
  by (rule nth_equalityI) simp_all

lemma geometry_pass_eq:
  assumes "length uv0 = length pts" "length v0 = length pts" "length k0 = length pts"
  shows "fold (geometry_step W w (rows ch0 - 1) (cols ch0 - 1) pts) [0..<length pts] (uv0, v0, k0) =
           geometry W w ch0 pts"
  using assms
    map_nth_upt [of "\<lambda>p. fst (point_geometry W w (rows ch0 - 1) (cols ch0 - 1) p)" pts]
    map_nth_upt [of "\<lambda>p. fst (snd (point_geometry W w (rows ch0 - 1) (cols ch0 - 1) p))" pts]
    map_nth_upt [of "\<lambda>p. snd (snd (point_geometry W w (rows ch0 - 1) (cols ch0 - 1) p))" pts]
  by (simp add: geometry_pass geometry_def)

lemma point_geometry_valid:
  "fst (snd (point_geometry W w mr mc p)) \<noteq> 0 \<longleftrightarrow>
     0 \<le> fst (fst (point_geometry W w mr mc p)) \<and> fst (fst (point_geometry W w mr mc p)) < mc \<and>
     0 \<le> snd (fst (point_geometry W w mr mc p)) \<and> snd (fst (point_geometry W w mr mc p)) < mr"
  by (simp add: point_geometry_def Let_def)

lemma grid_ok_nth:
  assumes "grid_ok channels" "c < length channels"
  shows "rows (channels ! c) = rows (hd channels)" "cols (channels ! c) = cols (hd channels)"
    "0 \<le> cols (hd channels)" "int (length (ptr (channels ! c))) = rows (hd channels) * cols (hd channels)"
  using assms by (auto simp: grid_ok_def list_all_length)

lemma rd_hd: "channels \<noteq> [] \<Longrightarrow> rd channels 0 = Inr (hd channels)"
  by (simp add: rd_def hd_conv_nth)

lemma geometry_footprint:
  assumes "grid_ok channels" "c < length channels" "i < length pts"
    and "fst (snd (geometry W w (hd channels) pts)) ! i \<noteq> 0"
  shows "0 \<le> snd (fst (geometry W w (hd channels) pts) ! i) * cols (channels ! c) +
               fst (fst (geometry W w (hd channels) pts) ! i) \<and>
         snd (fst (geometry W w (hd channels) pts) ! i) * cols (channels ! c) +
               fst (fst (geometry W w (hd channels) pts) ! i) + cols (channels ! c) + 1
           < int (length (ptr (channels ! c)))"
proof -
  let ?pg = "point_geometry W w (rows (hd channels) - 1) (cols (hd channels) - 1) (pts ! i)"
  have v: "fst (snd ?pg) \<noteq> 0" using assms(3,4) by (simp add: geometry_def)
  have uv: "fst (geometry W w (hd channels) pts) ! i = fst ?pg"
    using assms(3) by (simp add: geometry_def)
  show ?thesis
    using footprint_in_bounds [of "fst (fst ?pg)" "cols (hd channels)" "snd (fst ?pg)" "rows (hd channels)"]
      v [unfolded point_geometry_valid] grid_ok_nth [OF assms(1,2)]
    by (simp add: uv)
qed

lemma computeResiduals_result:
  assumes ok: "grid_ok channels"
    and inv: "length (pixels td) = length (points td) * length channels"
  shows "computeResiduals W channels pose residuals valid td =
     (let n = length (points td);
          w = setPose W (warp td) pose;
          g = geometry W w (hd channels) (points td)
      in Inr (td\<lparr>warp := w\<rparr>,
              fill_blocks (length channels) n
                (\<lambda>c. residual_value (fst g) (fst (snd g)) (snd (snd g)) (pixels td)
                        (ptr (channels ! c)) (cols (channels ! c)) (c * n))
                (resize (length (pixels td)) 0 residuals),
              fst (snd g)))"
proof -
  define n where "n = length (points td)"
  define w where "w = setPose W (warp td) pose"
  define g where "g = geometry W w (hd channels) (points td)"
  define res0 where "res0 = resize (length (pixels td)) 0 residuals"
  define rv where "rv = (\<lambda>c. residual_value (fst g) (fst (snd g)) (snd (snd g)) (pixels td)
                        (ptr (channels ! c)) (cols (channels ! c)) (c * n))"
  have ne: "channels \<noteq> []" using ok by (simp add: grid_ok_def)
  have geo: "fold (geometry_step W w (rows (hd channels) - 1) (cols (hd channels) - 1) (points td))
               [0..<n] (replicate n (0, 0), resize n 0 valid, replicate n (0, 0, 0, 0)) = g"
    unfolding n_def g_def by (rule geometry_pass_eq) simp_all
  let ?step = "\<lambda>c xs. fill_block (c * n) n (rv c) xs"
  have loop: "for_loop [0..<length channels]
          (residual_channel (fst g) (fst (snd g)) (snd (snd g)) (pixels td) channels n) res0 =
        Inr (fold ?step [0..<length channels] res0) \<and>
        length (fold ?step [0..<length channels] res0) = length (pixels td)"
  proof (rule for_loop_fold [where I = "\<lambda>xs. length xs = length (pixels td)"])
    show "length res0 = length (pixels td)" by (simp add: res0_def)
  next
    fix c and xs :: "real list"
    assume c: "c \<in> set [0..<length channels]" and len: "length xs = length (pixels td)"
    then have c': "c < length channels" by simp
    have "Suc c * n \<le> length channels * n" using c' by (intro mult_le_mono1) simp
    then have blk: "c * n + n \<le> length (pixels td)" using inv by (simp add: n_def mult.commute)
    have "residual_channel (fst g) (fst (snd g)) (snd (snd g)) (pixels td) channels n c xs =
            Inr (?step c xs)"
      unfolding rv_def
    proof (rule residual_channel_ok [where stride = "cols (channels ! c)"])
      show "c * n + n \<le> length xs" using blk len by simp
      show "c * n + n \<le> length (pixels td)" by (rule blk)
      show "0 \<le> cols (channels ! c)" using grid_ok_nth [OF ok c'] by simp
      show "cols (channels ! c) = cols (channels ! c)" ..
    next
      fix i
      assume "i < n" "fst (snd g) ! i \<noteq> 0"
      then show "0 \<le> snd (fst g ! i) * cols (channels ! c) + fst (fst g ! i) \<and>
          snd (fst g ! i) * cols (channels ! c) + fst (fst g ! i) + cols (channels ! c) + 1
            < int (length (ptr (channels ! c)))"
        unfolding g_def n_def by (intro geometry_footprint [OF ok c'])
    qed
    then show "residual_channel (fst g) (fst (snd g)) (snd (snd g)) (pixels td) channels n c xs =
            Inr (?step c xs) \<and> length (?step c xs) = length (pixels td)"
      using len by simp
  qed
  have "computeResiduals W channels pose residuals valid td =
      Inr (td\<lparr>warp := w\<rparr>, fold ?step [0..<length channels] res0, fst (snd g))"
    using loop geo
    by (simp add: computeResiduals_def rd_hd [OF ne] Let_def numPoints_def
        n_def [symmetric] w_def [symmetric] res0_def [symmetric])
  then show ?thesis
    unfolding rv_def n_def w_def g_def res0_def by (simp add: Let_def fill_blocks_def)
qed

lemma for_loop_preserves:
  assumes "for_loop is body s = Inr s'" "I s"
    and "\<And>i s s'. I s \<Longrightarrow> body i s = Inr s' \<Longrightarrow> I s'"
  shows "I s'"
  using assms(1,2)
proof (induction "is" arbitrary: s)
  case Nil
  then show ?case by simp
next
  case (Cons i "is")
  then obtain s1 where s1: "body i s = Inr s1" "for_loop is body s1 = Inr s'"
    by (auto split: sum.splits)
  have "I s1" using assms(3) [OF Cons.prems(2) s1(1)] .
  then show ?case using Cons.IH s1(2) by simp
qed

lemma wr_length: "wr buf i v = Inr buf' \<Longrightarrow> length buf' = length buf"
  by (auto simp: wr_def split: if_splits)

lemma residual_pixel_length:
  "residual_pixel uv valid coeffs I0 I_ptr stride off i res = Inr res' \<Longrightarrow>
   length res' = length res"
  by (auto simp: residual_pixel_def bind_r_def Let_def split: sum.splits if_splits
      dest: wr_length)

lemma residual_channel_length:
  assumes "residual_channel uv valid coeffs I0 channels n c res = Inr res'"
  shows "length res' = length res"
  using assms unfolding residual_channel_def
  by (rule for_loop_preserves [where I = "\<lambda>xs. length xs = length res"])
     (simp_all add: residual_pixel_length)

lemma computeResiduals_shape:
  assumes "computeResiduals W channels pose residuals valid td = Inr (td', res, val)"
  shows "td' = td\<lparr>warp := setPose W (warp td) pose\<rparr>"
    and "val = fst (snd (geometry W (setPose W (warp td) pose) (hd channels) (points td)))"
    and "length res = length (pixels td)"
proof -
  have ne: "channels \<noteq> []"
    using assms by (auto simp: computeResiduals_def rd_def split: if_splits)
  define w where "w = setPose W (warp td) pose"
  define g where "g = geometry W w (hd channels) (points td)"
  have geo: "fold (geometry_step W w (rows (hd channels) - 1) (cols (hd channels) - 1) (points td))
               [0..<length (points td)]
               (replicate (length (points td)) (0, 0), resize (length (points td)) 0 valid,
                replicate (length (points td)) (0, 0, 0, 0)) = g"
    unfolding g_def by (rule geometry_pass_eq) simp_all
  obtain r where r: "for_loop [0..<length channels]
          (residual_channel (fst g) (fst (snd g)) (snd (snd g)) (pixels td) channels
             (length (points td)))
          (resize (length (pixels td)) 0 residuals) = Inr r"
      and out: "(td', res, val) = (td\<lparr>warp := w\<rparr>, r, fst (snd g))"
    using assms geo
    by (auto simp: computeResiduals_def rd_hd [OF ne] Let_def numPoints_def
        w_def [symmetric] bind_r_def split: sum.splits)
  have "length r = length (pixels td)"
    using r
    by (rule for_loop_preserves [where I = "\<lambda>xs. length xs = length (pixels td)"])
       (simp_all add: residual_channel_length)
  then show "td' = td\<lparr>warp := setPose W (warp td) pose\<rparr>"
    and "val = fst (snd (geometry W (setPose W (warp td) pose) (hd channels) (points td)))"
    and "length res = length (pixels td)"
    using out by (simp_all add: w_def g_def)
qed

lemma geometry_nth:
  assumes "i < length pts"
  shows "fst (geometry W w ch0 pts) ! i =
           (\<lfloor>fst (project W w (pts ! i)) + 1/2\<rfloor>, \<lfloor>snd (project W w (pts ! i)) + 1/2\<rfloor>)"
    and "(fst (snd (geometry W w ch0 pts)) ! i \<noteq> 0) =
           (0 \<le> \<lfloor>fst (project W w (pts ! i)) + 1/2\<rfloor> \<and>
            \<lfloor>fst (project W w (pts ! i)) + 1/2\<rfloor> < cols ch0 - 1 \<and>
            0 \<le> \<lfloor>snd (project W w (pts ! i)) + 1/2\<rfloor> \<and>
            \<lfloor>snd (project W w (pts ! i)) + 1/2\<rfloor> < rows ch0 - 1)"
    and "snd (snd (geometry W w ch0 pts)) ! i =
           (let x = fst (project W w (pts ! i)); y = snd (project W w (pts ! i));
                xf = x - of_int \<lfloor>x + 1/2\<rfloor>; yf = y - of_int \<lfloor>y + 1/2\<rfloor>
            in ((1 - yf) * (1 - xf), (1 - yf) * xf, yf * (1 - xf), yf * xf))"
  using assms by (simp_all add: geometry_def point_geometry_def cvFloor_def Let_def)

lemma computeResiduals_returns:
  assumes "grid_ok channels" "numPixels td = numPoints td * length channels"
  shows "\<exists>res. computeResiduals W channels pose residuals valid td =
           Inr (td\<lparr>warp := setPose W (warp td) pose\<rparr>, res,
                fst (snd (geometry W (setPose W (warp td) pose) (hd channels) (points td)))) \<and>
         length res = numPixels td \<and>
         (\<forall>c<length channels. \<forall>i<numPoints td.
            res ! (c * numPoints td + i) =
              residual_value (fst (geometry W (setPose W (warp td) pose) (hd channels) (points td)))
                (fst (snd (geometry W (setPose W (warp td) pose) (hd channels) (points td))))
                (snd (snd (geometry W (setPose W (warp td) pose) (hd channels) (points td))))
                (pixels td) (ptr (channels ! c)) (cols (channels ! c)) (c * numPoints td) i)"
proof -
  have inv: "length (pixels td) = length (points td) * length channels"
    using assms(2) by (simp add: numPixels_def numPoints_def)
  have le: "length channels * length (points td) \<le> length (pixels td)"
    using inv by (simp add: mult.commute)
  show ?thesis
    using le
    by (simp add: computeResiduals_result [OF assms(1) inv] Let_def numPixels_def
        numPoints_def nth_fill_blocks)
qed

subsection \<open>Residual evaluation on the small instance\<close>

lemma ex_residuals_shift:
  "computeResiduals ex_W ex_channels (1/4, 1/2) [5] [7, 7, 7] ex_td =
     Inr (ex_td\<lparr>warp := (1/4, 1/2)\<rparr>, [15/4, 15/4, 195/2, 105], [1, 1])"
  by (simp add: computeResiduals_def rd_def wr_def resize_def numPoints_def Let_def
      ex_W_def ex_channels_def ex_td_def geometry_step_def point_geometry_def cvFloor_def
      residual_channel_def residual_pixel_def dot4_def upt_rec_numeral)

lemma ex_grid_ok: "grid_ok ex_channels"
  by (simp add: grid_ok_def ex_channels_def)

lemma ex_td_sizes: "numPixels ex_td = numPoints ex_td * length ex_channels"
  by (simp add: numPixels_def numPoints_def ex_td_def ex_channels_def)

subsection \<open>Residual evaluation: the claims\<close>

text \<open>
  C8. Whenever \<^verbatim>\<open>computeResiduals\<close> returns, the stored points, pixels and
  Jacobians (and so \<^verbatim>\<open>numPoints()\<close> and \<^verbatim>\<open>numPixels()\<close>) are what they were
  before the call; of the store only the warp changes, to the warp with the new pose.
  The other two results are the caller's \<^verbatim>\<open>residuals\<close> and \<^verbatim>\<open>valid\<close> buffers.
\<close>

theorem computeResiduals_frame:
  assumes "computeResiduals W channels pose residuals valid td = Inr (td', res, val)"
  shows "points td' = points td \<and> pixels td' = pixels td \<and> jacobians td' = jacobians td \<and>
         pyr_level td' = pyr_level td \<and> numPoints td' = numPoints td \<and>
         numPixels td' = numPixels td \<and> warp td' = setPose W (warp td) pose"
  using computeResiduals_shape(1) [OF assms] by (simp add: numPoints_def numPixels_def)

theorem computeResiduals_frame_witness:
  "computeResiduals ex_W ex_channels (1/4, 1/2) [5] [7, 7, 7] ex_td =
     Inr (ex_td\<lparr>warp := (1/4, 1/2)\<rparr>, [15/4, 15/4, 195/2, 105], [1, 1]) \<and>
   points (ex_td\<lparr>warp := (1/4, 1/2)\<rparr>) = points ex_td \<and>
   pixels (ex_td\<lparr>warp := (1/4, 1/2)\<rparr>) = pixels ex_td \<and>
   jacobians (ex_td\<lparr>warp := (1/4, 1/2)\<rparr>) = jacobians ex_td \<and>
   pyr_level (ex_td\<lparr>warp := (1/4, 1/2)\<rparr>) = pyr_level ex_td \<and>
   numPoints (ex_td\<lparr>warp := (1/4, 1/2)\<rparr>) = numPoints ex_td \<and>
   numPixels (ex_td\<lparr>warp := (1/4, 1/2)\<rparr>) = numPixels ex_td \<and>
   warp (ex_td\<lparr>warp := (1/4, 1/2)\<rparr>) = setPose ex_W (warp ex_td) (1/4, 1/2)"
  using computeResiduals_frame [OF ex_residuals_shift] ex_residuals_shift by blast

text \<open>
  C9. Whenever \<^verbatim>\<open>computeResiduals\<close> returns, \<^verbatim>\<open>valid\<close> has length
  \<^verbatim>\<open>numPoints()\<close> and \<^verbatim>\<open>residuals\<close> has length \<^verbatim>\<open>numPixels()\<close>, whatever the
  buffers the caller passed in; and for well-formed channels and a store with one
  block of \<open>numPoints\<close> pixels per channel it returns, whatever these buffers are.
\<close>

theorem output_buffers_are_resized:
  "(computeResiduals W channels pose residuals valid td = Inr (td', res, val) \<longrightarrow>
      length val = numPoints td \<and> length res = numPixels td) \<and>
   (grid_ok channels \<and> numPixels td = numPoints td * length channels \<longrightarrow>
      (\<exists>td' res val. computeResiduals W channels pose residuals valid td = Inr (td', res, val)))"
proof (intro conjI impI)
  assume r: "computeResiduals W channels pose residuals valid td = Inr (td', res, val)"
  show "length val = numPoints td" "length res = numPixels td"
    using computeResiduals_shape(2,3) [OF r]
    by (simp_all add: numPoints_def numPixels_def geometry_def)
next
  assume "grid_ok channels \<and> numPixels td = numPoints td * length channels"
  then show "\<exists>td' res val. computeResiduals W channels pose residuals valid td =
      Inr (td', res, val)"
    using computeResiduals_returns [of channels td W pose residuals valid] by blast
qed

theorem output_buffers_are_resized_witness:
  "computeResiduals ex_W ex_channels (1/4, 1/2) [5] [7, 7, 7] ex_td =
     Inr (ex_td\<lparr>warp := (1/4, 1/2)\<rparr>, [15/4, 15/4, 195/2, 105], [1, 1]) \<and>
   length [1, 1 :: 8 word] = numPoints ex_td \<and>
   length [15/4, 15/4, 195/2, 105 :: real] = numPixels ex_td \<and>
   grid_ok ex_channels \<and> numPixels ex_td = numPoints ex_td * length ex_channels \<and>
   (\<exists>td' res val.
      computeResiduals ex_W ex_channels (1/4, 1/2) [5] [7, 7, 7] ex_td = Inr (td', res, val))"
  using output_buffers_are_resized [of ex_W ex_channels "(1/4, 1/2)" "[5]" "[7, 7, 7]" ex_td
      "ex_td\<lparr>warp := (1/4, 1/2)\<rparr>" "[15/4, 15/4, 195/2, 105]" "[1, 1]"]
    ex_residuals_shift ex_grid_ok ex_td_sizes
  by blast

lemma footprint_all_in_bounds:
  fixes xi yi r c :: int
  assumes "0 \<le> xi" "xi < c - 1" "0 \<le> yi" "yi < r - 1"
  shows "list_all (\<lambda>k. 0 \<le> k \<and> k < r * c)
           [yi * c + xi, yi * c + xi + 1, yi * c + xi + c, yi * c + xi + c + 1]"
proof -
  have "0 \<le> c" using assms by linarith
  then show ?thesis using footprint_in_bounds [OF assms] by simp
qed

text \<open>
  C10. For every point flagged valid, the four sample indices \<open>ii\<close>, \<open>ii + 1\<close>,
  \<open>ii + stride\<close>, \<open>ii + stride + 1\<close>, with \<open>ii = yi * stride + xi\<close> and
  \<open>stride = cols\<close>, lie in \<open>[0, rows * cols)\<close>.
\<close>

theorem valid_footprint_in_bounds:
  assumes "computeResiduals W channels pose residuals valid td = Inr (td', res, val)"
    and "i < numPoints td" and "val ! i \<noteq> 0"
  shows "(let p = project W (setPose W (warp td) pose) (points td ! i);
              xi = \<lfloor>fst p + 1/2\<rfloor>; yi = \<lfloor>snd p + 1/2\<rfloor>;
              stride = cols (hd channels);
              ii = yi * stride + xi
          in list_all (\<lambda>k. 0 \<le> k \<and> k < rows (hd channels) * cols (hd channels))
               [ii, ii + 1, ii + stride, ii + stride + 1])"
proof -
  let ?p = "project W (setPose W (warp td) pose) (points td ! i)"
  have i: "i < length (points td)" using assms(2) by (simp add: numPoints_def)
  have "fst (snd (geometry W (setPose W (warp td) pose) (hd channels) (points td))) ! i \<noteq> 0"
    using assms(3) computeResiduals_shape(2) [OF assms(1)] by simp
  then have "0 \<le> \<lfloor>fst ?p + 1/2\<rfloor>" "\<lfloor>fst ?p + 1/2\<rfloor> < cols (hd channels) - 1"
    "0 \<le> \<lfloor>snd ?p + 1/2\<rfloor>" "\<lfloor>snd ?p + 1/2\<rfloor> < rows (hd channels) - 1"
    unfolding geometry_nth(2) [OF i] by blast+
  then show ?thesis
    unfolding Let_def by (rule footprint_all_in_bounds)
qed

theorem valid_footprint_in_bounds_witness:
  "computeResiduals ex_W ex_channels (1/4, 1/2) [5] [7, 7, 7] ex_td =
     Inr (ex_td\<lparr>warp := (1/4, 1/2)\<rparr>, [15/4, 15/4, 195/2, 105], [1, 1]) \<and>
   1 < numPoints ex_td \<and> [1, 1 :: 8 word] ! 1 \<noteq> 0 \<and>
   list_all (\<lambda>k. 0 \<le> k \<and> k < rows (hd ex_channels) * cols (hd ex_channels))
     [3 * 7 + 3, 3 * 7 + 3 + 1, 3 * 7 + 3 + 7, 3 * 7 + 3 + 7 + 1 :: int]"
proof -
  have i: "(1::nat) < numPoints ex_td" by (simp add: numPoints_def ex_td_def)
  have v: "[1, 1 :: 8 word] ! 1 \<noteq> 0" by simp
  have "list_all (\<lambda>k. 0 \<le> k \<and> k < rows (hd ex_channels) * cols (hd ex_channels))
     [3 * 7 + 3, 3 * 7 + 3 + 1, 3 * 7 + 3 + 7, 3 * 7 + 3 + 7 + 1 :: int]"
    using valid_footprint_in_bounds [OF ex_residuals_shift i v]
    by (simp add: ex_W_def ex_td_def ex_channels_def Let_def)
  then show ?thesis using ex_residuals_shift i v by blast
qed

subsection \<open>Residual evaluation in the arithmetic of the source\<close>

text \<open>What \<^verbatim>\<open>computeResiduals\<close> returns when its \<^verbatim>\<open>float\<close> operations are those of
  \<open>A\<close>: the lemmas above, for the functions of that section.\<close>

lemma geometry_pass_fp:
  assumes "length uv0 = n" "length v0 = n" "length k0 = n"
  shows "fold (geometry_step_fp A W w mr mc pts) [0..<n] (uv0, v0, k0) =
     (map (\<lambda>i. fst (point_geometry_fp A W w mr mc (pts ! i))) [0..<n],
      map (\<lambda>i. fst (snd (point_geometry_fp A W w mr mc (pts ! i)))) [0..<n],
      map (\<lambda>i. snd (snd (point_geometry_fp A W w mr mc (pts ! i)))) [0..<n])"
proof -
  have "geometry_step_fp A W w mr mc pts =
      (\<lambda>i s. ((fst s)[i := fst (point_geometry_fp A W w mr mc (pts ! i))],
              (fst (snd s))[i := fst (snd (point_geometry_fp A W w mr mc (pts ! i)))],
              (snd (snd s))[i := snd (snd (point_geometry_fp A W w mr mc (pts ! i)))]))"
    by (simp add: fun_eq_iff geometry_step_fp_def split_beta)
  then show ?thesis
    using assms by (simp add: fold_triple_fill fold_update_eq_map)
qed

lemma residual_pixel_ok_fp:
  assumes "off + i < length res" "off + i < length I0"
    and "valid ! i \<noteq> 0 \<Longrightarrow>
          0 \<le> snd (uv ! i) * stride + fst (uv ! i) \<and>
          snd (uv ! i) * stride + fst (uv ! i) + stride + 1 < int (length I_ptr)"
    and "0 \<le> stride"
  shows "residual_pixel_fp A uv valid coeffs I0 I_ptr stride off i res =
           Inr (res[off + i := residual_value_fp A uv valid coeffs I0 I_ptr stride off i])"
proof (cases "valid ! i \<noteq> 0")
  case True
  then show ?thesis
    using assms rd_nat [of "off + i" I0]
    by (simp add: residual_pixel_fp_def residual_value_fp_def Let_def rd_in wr_in del: of_nat_add)
next
  case False
  then show ?thesis
    using assms by (simp add: residual_pixel_fp_def residual_value_fp_def wr_in)
qed

lemma residual_channel_ok_fp:
  assumes "c * n + n \<le> length res" "c * n + n \<le> length I0" "0 \<le> stride"
    and "\<And>i. i < n \<Longrightarrow> valid ! i \<noteq> 0 \<Longrightarrow>
          0 \<le> snd (uv ! i) * cols (channels ! c) + fst (uv ! i) \<and>
          snd (uv ! i) * cols (channels ! c) + fst (uv ! i) + cols (channels ! c) + 1
            < int (length (ptr (channels ! c)))"
    and "stride = cols (channels ! c)"
  shows "residual_channel_fp A uv valid coeffs I0 channels n c res =
           Inr (fill_block (c * n) n
                  (residual_value_fp A uv valid coeffs I0 (ptr (channels ! c)) (cols (channels ! c)) (c * n))
                  res) "
proof -
  let ?g = "\<lambda>i xs. xs[c * n + i :=
      residual_value_fp A uv valid coeffs I0 (ptr (channels ! c)) (cols (channels ! c)) (c * n) i]"
  have "for_loop [0..<n]
          (residual_pixel_fp A uv valid coeffs I0 (ptr (channels ! c)) (cols (channels ! c)) (c * n)) res =
        Inr (fold ?g [0..<n] res) \<and> length (fold ?g [0..<n] res) = length res"
  proof (rule for_loop_fold [where I = "\<lambda>xs. length xs = length res"])
    show "length res = length res" by simp
  next
    fix i and xs :: "real list"
    assume i: "i \<in> set [0..<n]" and len: "length xs = length res"
    then have "residual_pixel_fp A uv valid coeffs I0 (ptr (channels ! c)) (cols (channels ! c)) (c * n) i xs =
        Inr (?g i xs)"
      using assms by (intro residual_pixel_ok_fp) auto
    then show "residual_pixel_fp A uv valid coeffs I0 (ptr (channels ! c)) (cols (channels ! c)) (c * n) i xs =
        Inr (?g i xs) \<and> length (?g i xs) = length res"
      using len by simp
  qed
  then show ?thesis by (simp add: residual_channel_fp_def fill_block_def)
qed

lemma geometry_pass_eq_fp:
  assumes "length uv0 = length pts" "length v0 = length pts" "length k0 = length pts"
  shows "fold (geometry_step_fp A W w (rows ch0 - 1) (cols ch0 - 1) pts) [0..<length pts] (uv0, v0, k0) =
           geometry_fp A W w ch0 pts"
  using assms
    map_nth_upt [of "\<lambda>p. fst (point_geometry_fp A W w (rows ch0 - 1) (cols ch0 - 1) p)" pts]
    map_nth_upt [of "\<lambda>p. fst (snd (point_geometry_fp A W w (rows ch0 - 1) (cols ch0 - 1) p))" pts]
    map_nth_upt [of "\<lambda>p. snd (snd (point_geometry_fp A W w (rows ch0 - 1) (cols ch0 - 1) p))" pts]
  by (simp add: geometry_pass_fp geometry_fp_def)

lemma point_geometry_valid_fp:
  "fst (snd (point_geometry_fp A W w mr mc p)) \<noteq> 0 \<longleftrightarrow>
     0 \<le> fst (fst (point_geometry_fp A W w mr mc p)) \<and> fst (fst (point_geometry_fp A W w mr mc p)) < mc \<and>
     0 \<le> snd (fst (point_geometry_fp A W w mr mc p)) \<and> snd (fst (point_geometry_fp A W w mr mc p)) < mr"
  by (simp add: point_geometry_fp_def Let_def)

lemma geometry_footprint_fp:
  assumes "grid_ok channels" "c < length channels" "i < length pts"
    and "fst (snd (geometry_fp A W w (hd channels) pts)) ! i \<noteq> 0"
  shows "0 \<le> snd (fst (geometry_fp A W w (hd channels) pts) ! i) * cols (channels ! c) +
               fst (fst (geometry_fp A W w (hd channels) pts) ! i) \<and>
         snd (fst (geometry_fp A W w (hd channels) pts) ! i) * cols (channels ! c) +
               fst (fst (geometry_fp A W w (hd channels) pts) ! i) + cols (channels ! c) + 1
           < int (length (ptr (channels ! c)))"
proof -
  let ?pg = "point_geometry_fp A W w (rows (hd channels) - 1) (cols (hd channels) - 1) (pts ! i)"
  have v: "fst (snd ?pg) \<noteq> 0" using assms(3,4) by (simp add: geometry_fp_def)
  have uv: "fst (geometry_fp A W w (hd channels) pts) ! i = fst ?pg"
    using assms(3) by (simp add: geometry_fp_def)
  show ?thesis
    using footprint_in_bounds [of "fst (fst ?pg)" "cols (hd channels)" "snd (fst ?pg)" "rows (hd channels)"]
      v [unfolded point_geometry_valid_fp] grid_ok_nth [OF assms(1,2)]
    by (simp add: uv)
qed

lemma computeResiduals_result_fp:
  assumes ok: "grid_ok channels"
    and inv: "length (pixels td) = length (points td) * length channels"
  shows "computeResiduals_fp A W channels pose residuals valid td =
     (let n = length (points td);
          w = setPose W (warp td) pose;
          g = geometry_fp A W w (hd channels) (points td)
      in Inr (td\<lparr>warp := w\<rparr>,
              fill_blocks (length channels) n
                (\<lambda>c. residual_value_fp A (fst g) (fst (snd g)) (snd (snd g)) (pixels td)
                        (ptr (channels ! c)) (cols (channels ! c)) (c * n))
                (resize (length (pixels td)) 0 residuals),
              fst (snd g)))"
proof -
  define n where "n = length (points td)"
  define w where "w = setPose W (warp td) pose"
  define g where "g = geometry_fp A W w (hd channels) (points td)"
  define res0 where "res0 = resize (length (pixels td)) 0 residuals"
  define rv where "rv = (\<lambda>c. residual_value_fp A (fst g) (fst (snd g)) (snd (snd g)) (pixels td)
                        (ptr (channels ! c)) (cols (channels ! c)) (c * n))"
  have ne: "channels \<noteq> []" using ok by (simp add: grid_ok_def)
  have geo: "fold (geometry_step_fp A W w (rows (hd channels) - 1) (cols (hd channels) - 1) (points td))
               [0..<n] (replicate n (0, 0), resize n 0 valid, replicate n (0, 0, 0, 0)) = g"
    unfolding n_def g_def by (rule geometry_pass_eq_fp) simp_all
  let ?step = "\<lambda>c xs. fill_block (c * n) n (rv c) xs"
  have loop: "for_loop [0..<length channels]
          (residual_channel_fp A (fst g) (fst (snd g)) (snd (snd g)) (pixels td) channels n) res0 =
        Inr (fold ?step [0..<length channels] res0) \<and>
        length (fold ?step [0..<length channels] res0) = length (pixels td)"
  proof (rule for_loop_fold [where I = "\<lambda>xs. length xs = length (pixels td)"])
    show "length res0 = length (pixels td)" by (simp add: res0_def)
  next
    fix c and xs :: "real list"
    assume c: "c \<in> set [0..<length channels]" and len: "length xs = length (pixels td)"
    then have c': "c < length channels" by simp
    have "Suc c * n \<le> length channels * n" using c' by (intro mult_le_mono1) simp
    then have blk: "c * n + n \<le> length (pixels td)" using inv by (simp add: n_def mult.commute)
    have "residual_channel_fp A (fst g) (fst (snd g)) (snd (snd g)) (pixels td) channels n c xs =
            Inr (?step c xs)"
      unfolding rv_def
    proof (rule residual_channel_ok_fp [where stride = "cols (channels ! c)"])
      show "c * n + n \<le> length xs" using blk len by simp
      show "c * n + n \<le> length (pixels td)" by (rule blk)
      show "0 \<le> cols (channels ! c)" using grid_ok_nth [OF ok c'] by simp
      show "cols (channels ! c) = cols (channels ! c)" ..
    next
      fix i
      assume "i < n" "fst (snd g) ! i \<noteq> 0"
      then show "0 \<le> snd (fst g ! i) * cols (channels ! c) + fst (fst g ! i) \<and>
          snd (fst g ! i) * cols (channels ! c) + fst (fst g ! i) + cols (channels ! c) + 1
            < int (length (ptr (channels ! c)))"
        unfolding g_def n_def by (intro geometry_footprint_fp [OF ok c'])
    qed
    then show "residual_channel_fp A (fst g) (fst (snd g)) (snd (snd g)) (pixels td) channels n c xs =
            Inr (?step c xs) \<and> length (?step c xs) = length (pixels td)"
      using len by simp
  qed
  have "computeResiduals_fp A W channels pose residuals valid td =
      Inr (td\<lparr>warp := w\<rparr>, fold ?step [0..<length channels] res0, fst (snd g))"
    using loop geo
    by (simp add: computeResiduals_fp_def rd_hd [OF ne] Let_def numPoints_def
        n_def [symmetric] w_def [symmetric] res0_def [symmetric])
  then show ?thesis
    unfolding rv_def n_def w_def g_def res0_def by (simp add: Let_def fill_blocks_def)
qed

lemma computeResiduals_returns_fp:
  assumes "grid_ok channels" "numPixels td = numPoints td * length channels"
  shows "\<exists>res. computeResiduals_fp A W channels pose residuals valid td =
           Inr (td\<lparr>warp := setPose W (warp td) pose\<rparr>, res,
                fst (snd (geometry_fp A W (setPose W (warp td) pose) (hd channels) (points td)))) \<and>
         length res = numPixels td \<and>
         (\<forall>c<length channels. \<forall>i<numPoints td.
            res ! (c * numPoints td + i) =
              residual_value_fp A (fst (geometry_fp A W (setPose W (warp td) pose) (hd channels) (points td)))
                (fst (snd (geometry_fp A W (setPose W (warp td) pose) (hd channels) (points td))))
                (snd (snd (geometry_fp A W (setPose W (warp td) pose) (hd channels) (points td))))
                (pixels td) (ptr (channels ! c)) (cols (channels ! c)) (c * numPoints td) i)"
proof -
  have inv: "length (pixels td) = length (points td) * length channels"
    using assms(2) by (simp add: numPixels_def numPoints_def)
  have le: "length channels * length (points td) \<le> length (pixels td)"
    using inv by (simp add: mult.commute)
  show ?thesis
    using le
    by (simp add: computeResiduals_result_fp [OF assms(1) inv] Let_def numPixels_def
        numPoints_def nth_fill_blocks)
qed

lemma geometry_fp_nth:
  assumes "i < length pts"
  shows "fst (geometry_fp A W w ch0 pts) ! i =
           (f_floor A (f_add A (fst (project W w (pts ! i))) (1/2)),
            f_floor A (f_add A (snd (project W w (pts ! i))) (1/2)))"
    and "(fst (snd (geometry_fp A W w ch0 pts)) ! i \<noteq> 0) =
           (0 \<le> f_floor A (f_add A (fst (project W w (pts ! i))) (1/2)) \<and>
            f_floor A (f_add A (fst (project W w (pts ! i))) (1/2)) < cols ch0 - 1 \<and>
            0 \<le> f_floor A (f_add A (snd (project W w (pts ! i))) (1/2)) \<and>
            f_floor A (f_add A (snd (project W w (pts ! i))) (1/2)) < rows ch0 - 1)"
    and "snd (snd (geometry_fp A W w ch0 pts)) ! i =
           (let x = fst (project W w (pts ! i)); y = snd (project W w (pts ! i));
                xf = f_sub A x (f_of_int A (f_floor A (f_add A x (1/2))));
                yf = f_sub A y (f_of_int A (f_floor A (f_add A y (1/2))))
            in (f_mul A (f_sub A 1 yf) (f_sub A 1 xf), f_mul A (f_sub A 1 yf) xf,
                f_mul A yf (f_sub A 1 xf), f_mul A yf xf))"
  using assms
  by (simp_all add: geometry_fp_def point_geometry_fp_def base_cell_def frac_offset_def
      interp_weights_def Let_def)


text \<open>With exact arithmetic these are the functions of the first sections.\<close>

lemma point_geometry_fp_exact:
  "point_geometry_fp exact W w mr mc p = point_geometry W w mr mc p"
  by (simp add: point_geometry_fp_def point_geometry_def exact_def base_cell_def
      frac_offset_def interp_weights_def cvFloor_def Let_def)

lemma computeResiduals_fp_exact:
  "computeResiduals_fp exact W channels pose residuals valid td =
     computeResiduals W channels pose residuals valid td"
proof -
  have g: "geometry_step_fp exact W w mr mc pts = geometry_step W w mr mc pts" for w mr mc pts
    by (simp add: fun_eq_iff geometry_step_fp_def geometry_step_def point_geometry_fp_exact)
  have p: "residual_pixel_fp exact uv v k I0 I_ptr stride off =
      residual_pixel uv v k I0 I_ptr stride off" for uv v k I0 I_ptr stride off
    by (simp add: fun_eq_iff residual_pixel_fp_def residual_pixel_def exact_def)
  have c: "residual_channel_fp exact uv v k I0 channels n = residual_channel uv v k I0 channels n"
    for uv v k I0 n
    by (simp add: fun_eq_iff residual_channel_fp_def residual_channel_def p)
  show ?thesis
    by (simp add: computeResiduals_fp_def computeResiduals_def g c)
qed

subsection \<open>Rounding to binary32\<close>

text \<open>A number with \<open>2 ^ k \<le> |x| < 2 ^ (k + 1)\<close> and \<open>- 126 \<le> k\<close> is rounded to a multiple
  of \<open>2 ^ (k - 23)\<close>.\<close>

lemma pow2_times_power:
  assumes "- int n \<le> k"
  shows "pow2 k * 2 ^ n = 2 ^ nat (k + int n)"
proof (cases "0 \<le> k")
  case True
  then have "nat (k + int n) = nat k + n" by simp
  then show ?thesis using True by (simp add: pow2_def power_add)
next
  case False
  then have "n = nat (- k) + nat (k + int n)" using assms by simp
  then have "(2::real) ^ n = 2 ^ nat (- k) * 2 ^ nat (k + int n)"
    by (metis power_add)
  then show ?thesis using False by (simp add: pow2_def)
qed

lemma ulp_exponent_eq:
  assumes "pow2 k \<le> \<bar>x\<bar>" "\<bar>x\<bar> < pow2 (k + 1)" "- 126 \<le> k"
  shows "ulp_exponent x = k - 23"
proof -
  define n :: nat where "n = 149"
  let ?m = "\<lfloor>\<bar>x\<bar> * 2 ^ n\<rfloor>"
  have kn: "- int n \<le> k" "- int n \<le> k + 1" using assms(3) by (simp_all add: n_def)
  have p: "pow2 k * 2 ^ n = 2 ^ nat (k + int n)" "pow2 (k + 1) * 2 ^ n = 2 ^ nat (k + 1 + int n)"
    by (rule pow2_times_power [OF kn(1)], rule pow2_times_power [OF kn(2)])
  have "pow2 k * 2 ^ n \<le> \<bar>x\<bar> * 2 ^ n"
    using assms(1) by (intro mult_right_mono) simp_all
  then have lo: "2 ^ nat (k + int n) \<le> ?m" by (simp add: le_floor_iff p)
  have "\<bar>x\<bar> * 2 ^ n < pow2 (k + 1) * 2 ^ n"
    using assms(2) by (intro mult_strict_right_mono) simp_all
  then have hi: "?m < 2 ^ nat (k + 1 + int n)" by (simp add: floor_less_iff p)
  have "bitlen ?m \<le> k + 1 + int n" using hi kn(2) by (simp add: bitlen_le_iff_power)
  moreover have "nat (k + 1 + int n) - 1 = nat (k + int n)" using kn(1) by simp
  then have "k + 1 + int n \<le> bitlen ?m"
    using lo by (simp add: bitlen_ge_iff_power)
  ultimately have "bitlen ?m = k + 150" by (simp add: n_def)
  then show ?thesis using assms(3) by (simp add: ulp_exponent_def n_def)
qed

lemma round32_at:
  assumes "pow2 k \<le> \<bar>x\<bar>" "\<bar>x\<bar> < pow2 (k + 1)" "- 126 \<le> k"
  shows "round32 x = of_int (round_to_even (x / pow2 (k - 23))) * pow2 (k - 23)"
  by (simp add: round32_def ulp_exponent_eq [OF assms])

lemma round32_0 [simp]: "round32 0 = 0"
  by (simp add: round32_def round_to_even_def)

lemma round32_small:
  "round32 1 = 1" "round32 (1/2) = 1/2" "round32 (3/2) = 3/2" "round32 (- (1/2)) = - (1/2)"
  "round32 30 = 30" "round32 15 = 15" "round32 (- 15) = - 15"
  using round32_at [of 0 1] round32_at [of "-1" "1/2"] round32_at [of 0 "3/2"]
    round32_at [of "-1" "- (1/2)"] round32_at [of 4 30] round32_at [of 3 15]
    round32_at [of 3 "- 15"]
  by (simp_all add: pow2_def round_to_even_def Let_def)

lemma round32_ties:
  "round32 (33554431 / 33554432) = 1" "round32 (- (16777217 / 33554432)) = - (1/2)"
  using round32_at [of "-1" "33554431 / 33554432"] round32_at [of "-1" "- (16777217 / 33554432)"]
  by (simp_all add: pow2_def round_to_even_def Let_def)


subsection \<open>Residual evaluation on the binary32 instances\<close>




lemma ex32_narrow_ok: "grid_ok ex32_narrow"
  by (simp add: grid_ok_def ex32_narrow_def)

lemma ex32_narrow_sizes:
  "numPixels ex32_narrow_td = numPoints ex32_narrow_td * length ex32_narrow"
  by (simp add: numPixels_def numPoints_def ex32_narrow_td_def ex32_narrow_def)



subsection \<open>Residual evaluation in the arithmetic of the source: the claims\<close>






text \<open>
  C3. \<^verbatim>\<open>computeResiduals\<close> returns, a point is flagged valid exactly when its base
  cell \<open>xi = cvFloor(x + 0.5f)\<close>, \<open>yi = cvFloor(y + 0.5f)\<close>, as the source computes it
  in its \<^verbatim>\<open>float\<close> arithmetic \<open>A\<close>, satisfies \<open>0 \<le> xi < cols - 1\<close> and
  \<open>0 \<le> yi < rows - 1\<close>, and for a point flagged invalid the residual slot of every
  channel holds 0, whatever the caller's buffer held before.
\<close>

theorem valid_iff_base_cell_inside:
  assumes "grid_ok channels" "numPixels td = numPoints td * length channels"
  shows "\<exists>td' res val.
     computeResiduals_fp A W channels pose residuals valid td = Inr (td', res, val) \<and>
     (\<forall>i<numPoints td.
        (let p = project W (setPose W (warp td) pose) (points td ! i);
             xi = f_floor A (f_add A (fst p) (1/2));
             yi = f_floor A (f_add A (snd p) (1/2))
         in (val ! i \<noteq> 0) =
              (0 \<le> xi \<and> xi < cols (hd channels) - 1 \<and> 0 \<le> yi \<and> yi < rows (hd channels) - 1)) \<and>
        (val ! i = 0 \<longrightarrow> (\<forall>c<length channels. res ! (c * numPoints td + i) = 0)))"
proof -
  define w where "w = setPose W (warp td) pose"
  define g where "g = geometry_fp A W w (hd channels) (points td)"
  obtain res where r: "computeResiduals_fp A W channels pose residuals valid td =
        Inr (td\<lparr>warp := w\<rparr>, res, fst (snd g))"
    and v: "\<forall>c<length channels. \<forall>i<numPoints td.
        res ! (c * numPoints td + i) =
          residual_value_fp A (fst g) (fst (snd g)) (snd (snd g)) (pixels td)
            (ptr (channels ! c)) (cols (channels ! c)) (c * numPoints td) i"
    using computeResiduals_returns_fp [OF assms, of A W pose residuals valid]
    unfolding w_def g_def by blast
  have flag: "let p = project W w (points td ! i);
             xi = f_floor A (f_add A (fst p) (1/2));
             yi = f_floor A (f_add A (snd p) (1/2))
         in (fst (snd g) ! i \<noteq> 0) =
              (0 \<le> xi \<and> xi < cols (hd channels) - 1 \<and> 0 \<le> yi \<and> yi < rows (hd channels) - 1)"
    if "i < numPoints td" for i
    using that geometry_fp_nth(2) [of i "points td" A W w "hd channels"]
    by (simp add: numPoints_def g_def Let_def)
  have zero: "res ! (c * numPoints td + i) = 0"
    if "i < numPoints td" "fst (snd g) ! i = 0" "c < length channels" for i c
    using that v by (simp add: residual_value_fp_def)
  show ?thesis
    using r flag zero unfolding w_def by blast
qed

text \<open>In binary32 and a channel of 2 columns, the point at
  \<open>x = 16777215 / 33554432\<close> has the base cell \<open>(1, 0)\<close>: it is flagged invalid and its
  residual is 0; the point at \<open>(0, 0)\<close> is flagged valid.\<close>

theorem valid_iff_base_cell_inside_witness:
  "grid_ok ex32_narrow \<and> numPixels ex32_narrow_td = numPoints ex32_narrow_td * length ex32_narrow \<and>
   (\<exists>td' res val.
      computeResiduals_fp binary32 ex_W ex32_narrow (0, 0) [5, 5] [9] ex32_narrow_td =
        Inr (td', res, val) \<and>
      val ! 0 = 0 \<and> res ! (0 * numPoints ex32_narrow_td + 0) = 0 \<and> val ! 1 \<noteq> 0)"
proof -
  obtain td' res val where
    r: "computeResiduals_fp binary32 ex_W ex32_narrow (0, 0) [5, 5] [9] ex32_narrow_td =
          Inr (td', res, val)"
    and b: "\<forall>i<numPoints ex32_narrow_td.
        (let p = project ex_W (setPose ex_W (warp ex32_narrow_td) (0, 0)) (points ex32_narrow_td ! i);
             xi = f_floor binary32 (f_add binary32 (fst p) (1/2));
             yi = f_floor binary32 (f_add binary32 (snd p) (1/2))
         in (val ! i \<noteq> 0) =
              (0 \<le> xi \<and> xi < cols (hd ex32_narrow) - 1 \<and> 0 \<le> yi \<and>
               yi < rows (hd ex32_narrow) - 1)) \<and>
        (val ! i = 0 \<longrightarrow> (\<forall>c<length ex32_narrow. res ! (c * numPoints ex32_narrow_td + i) = 0))"
    using valid_iff_base_cell_inside [OF ex32_narrow_ok ex32_narrow_sizes,
        of binary32 ex_W "(0, 0)" "[5, 5]" "[9]"]
    by blast
  have n: "numPoints ex32_narrow_td = 2" "length ex32_narrow = 1"
    by (simp_all add: numPoints_def ex32_narrow_td_def ex32_narrow_def)
  have v0: "val ! 0 = 0"
    using b [rule_format, of 0, THEN conjunct1]
    by (simp add: numPoints_def ex32_narrow_def ex32_narrow_td_def ex_W_def Let_def
        binary32_def cvFloor32_def round32_small round32_ties)
  have v1: "val ! 1 \<noteq> 0"
    using b [rule_format, of 1, THEN conjunct1]
    by (simp add: numPoints_def ex32_narrow_def ex32_narrow_td_def ex_W_def Let_def
        binary32_def cvFloor32_def round32_small round32_ties)
  have "res ! (0 * numPoints ex32_narrow_td + 0) = 0"
    using b [rule_format, of 0, THEN conjunct2, rule_format, OF _ v0, of 0]
    by (simp add: n)
  then show ?thesis using r v0 v1 ex32_narrow_ok ex32_narrow_sizes by auto
qed

subsection \<open>Extraction: what \<^verbatim>\<open>setData\<close> returns\<close>

lemma selected_cell:
  assumes "(k, d) \<in> set (getValidPixelsLocations dmap smap r nms)"
  shows "\<exists>y x. k = y * cols smap + x \<and> d = dmap y x \<and>
           max 2 r \<le> y \<and> y \<le> rows smap - max 2 r - 2 \<and>
           max 2 r \<le> x \<and> x \<le> cols smap - max 2 r - 2"
proof -
  obtain y x where "y \<in> set [max 2 r .. rows smap - max 2 r - 2]"
    "x \<in> set [max 2 r .. cols smap - max 2 r - 2]" "(k, d) = (y * cols smap + x, dmap y x)"
    using assms by (auto simp: getValidPixelsLocations_def scan_rows_eq Let_def)
  then have "k = y * cols smap + x \<and> d = dmap y x \<and>
           max 2 r \<le> y \<and> y \<le> rows smap - max 2 r - 2 \<and>
           max 2 r \<le> x \<and> x \<le> cols smap - max 2 r - 2"
    by simp
  then show ?thesis by blast
qed

lemma gradient_in_bounds:
  fixes x y r c :: int
  assumes "2 \<le> y" "y \<le> r - 4" "2 \<le> x" "x \<le> c - 4"
  shows "0 \<le> y * c + x - c \<and> y * c + x + c < r * c"
proof -
  have c: "0 \<le> c" using assms by linarith
  have "1 * c \<le> y * c" using assms(1) c by (intro mult_right_mono) auto
  moreover have "(y + 2) * c \<le> r * c" using assms(2) c by (intro mult_right_mono) auto
  then have "y * c + 2 * c \<le> r * c" by (simp add: algebra_simps)
  ultimately show ?thesis using assms by linarith
qed

lemma cell_div_mod:
  fixes x y c :: int
  assumes "0 \<le> x" "x < c"
  shows "(y * c + x) div c = y" "(y * c + x) mod c = x"
  using assms by simp_all

lemma points_loop:
  "fold (set_point W w stride inds) [0..<length inds] (resize (length inds) d pts0) =
     map (point_of W w stride) inds"
proof -
  have "set_point W w stride inds = (\<lambda>i pts. pts[i := point_of W w stride (inds ! i)])"
    by (simp add: fun_eq_iff set_point_def point_of_def split_beta)
  then show ?thesis
    using fold_update_eq_map [of "resize (length inds) d pts0" "length inds"
        "\<lambda>i. point_of W w stride (inds ! i)"]
      map_nth_upt [of "point_of W w stride" inds]
    by simp
qed

lemma extract_pixel_ok:
  assumes "off + i < length (fst s)" "off + i < length (snd s)"
    and "0 \<le> fst (inds ! i) - stride" "fst (inds ! i) + stride < int (length c_ptr)"
    and "0 < stride"
  shows "extract_pixel Fx Fy stride c_ptr Jw inds off i s =
           Inr ((fst s)[off + i := jacobian_value Fx Fy stride c_ptr Jw inds i],
                (snd s)[off + i := pixel_value c_ptr inds i])"
  using assms
  by (simp add: extract_pixel_def Let_def rd_in wr_in jacobian_value_def pixel_value_def)

lemma extract_channel_ok:
  assumes "c * length inds + length inds \<le> length (fst s)"
    and "c * length inds + length inds \<le> length (snd s)"
    and "\<And>i. i < length inds \<Longrightarrow>
           0 < stride \<and> 0 \<le> fst (inds ! i) - stride \<and>
           fst (inds ! i) + stride < int (length (ptr (channels ! c)))"
  shows "extract_channel Fx Fy stride channels Jw inds c s =
           Inr (fill_block (c * length inds) (length inds)
                  (jacobian_value Fx Fy stride (ptr (channels ! c)) Jw inds) (fst s),
                fill_block (c * length inds) (length inds)
                  (pixel_value (ptr (channels ! c)) inds) (snd s))"
proof -
  let ?J = "jacobian_value Fx Fy stride (ptr (channels ! c)) Jw inds"
  let ?P = "pixel_value (ptr (channels ! c)) inds"
  let ?g = "\<lambda>i s. ((fst s)[c * length inds + i := ?J i], (snd s)[c * length inds + i := ?P i])"
  let ?I = "\<lambda>t :: real list list \<times> real list.
              length (fst t) = length (fst s) \<and> length (snd t) = length (snd s)"
  have "for_loop [0..<length inds]
          (extract_pixel Fx Fy stride (ptr (channels ! c)) Jw inds (c * length inds)) s =
        Inr (fold ?g [0..<length inds] s) \<and> ?I (fold ?g [0..<length inds] s)"
  proof (rule for_loop_fold [where I = ?I])
    show "?I s" by simp
  next
    fix i and t :: "real list list \<times> real list"
    assume i: "i \<in> set [0..<length inds]" and t: "?I t"
    have "extract_pixel Fx Fy stride (ptr (channels ! c)) Jw inds (c * length inds) i t =
        Inr (?g i t)"
      using i t assms by (intro extract_pixel_ok) auto
    then show "extract_pixel Fx Fy stride (ptr (channels ! c)) Jw inds (c * length inds) i t =
        Inr (?g i t) \<and> ?I (?g i t)"
      using t by simp
  qed
  then show ?thesis
    by (simp add: extract_channel_def fold_pair_fill fill_block_def)
qed

lemma fold_pair:
  "fold (\<lambda>c s. (F c (fst s), G c (snd s))) cs s = (fold F cs (fst s), fold G cs (snd s))"
  by (induction cs arbitrary: s) auto

lemma Channels_ok_nth:
  assumes "Channels_ok CN channels" "c < length channels"
  shows "cols (channels ! c) = cols (computeSaliencyMap CN channels)"
    and "int (length (ptr (channels ! c))) =
           rows (computeSaliencyMap CN channels) * cols (computeSaliencyMap CN channels)"
  using assms grid_ok_nth [of channels c] by (simp_all add: Channels_ok_def)

lemma selected_nth_cell:
  assumes "i < length (getValidPixelsLocations dmap smap 1 nms)"
  shows "\<exists>y x. fst (getValidPixelsLocations dmap smap 1 nms ! i) = y * cols smap + x \<and>
           2 \<le> y \<and> y \<le> rows smap - 4 \<and> 2 \<le> x \<and> x \<le> cols smap - 4"
proof -
  let ?inds = "getValidPixelsLocations dmap smap 1 nms"
  have "(fst (?inds ! i), snd (?inds ! i)) \<in> set ?inds" using assms by simp
  then show ?thesis
    using selected_cell [of "fst (?inds ! i)" "snd (?inds ! i)" dmap smap 1 nms] by auto
qed

lemma selected_nth_bounds:
  assumes "i < length (getValidPixelsLocations dmap smap 1 nms)"
  shows "0 < cols smap \<and>
         0 \<le> fst (getValidPixelsLocations dmap smap 1 nms ! i) - cols smap \<and>
         fst (getValidPixelsLocations dmap smap 1 nms ! i) + cols smap < rows smap * cols smap"
proof -
  obtain y x where c: "fst (getValidPixelsLocations dmap smap 1 nms ! i) = y * cols smap + x"
    "2 \<le> y" "y \<le> rows smap - 4" "2 \<le> x" "x \<le> cols smap - 4"
    using selected_nth_cell [OF assms] by blast
  show ?thesis
    using gradient_in_bounds [OF c(2-5)] c by simp
qed

lemma setData_result:
  assumes ok: "Channels_ok CN channels" and fl: "type_is_float D"
  shows "setData AP CN W channels D td =
     (let inds = selected AP CN channels D (pyr_level td);
          N = length inds;
          stride = cols (computeSaliencyMap CN channels);
          pts = map (point_of W (warp td) stride) inds;
          Jw = map (warpJacobianAtZero W (warp td)) pts;
          Fx = K W (warp td) 0 0 * 0.5;
          Fy = K W (warp td) 1 1 * 0.5
      in Inr (td\<lparr>jacobians :=
                   fill_blocks (NumChannels CN) N
                     (\<lambda>c. jacobian_value Fx Fy stride (ptr (channels ! c)) Jw inds)
                     (resize (N * NumChannels CN) (indeterminate_Jacobian W) (jacobians td))
                   @ [Jacobian_Zero W],
                 points := pts,
                 pixels :=
                   fill_blocks (NumChannels CN) N (\<lambda>c. pixel_value (ptr (channels ! c)) inds)
                     (resize (N * NumChannels CN) 0 (pixels td))\<rparr>))"
proof -
  define smap where "smap = computeSaliencyMap CN channels"
  define inds where "inds = selected AP CN channels D (pyr_level td)"
  define N where "N = length inds"
  define pts where "pts = map (point_of W (warp td) (cols smap)) inds"
  define Jw where "Jw = map (warpJacobianAtZero W (warp td)) pts"
  define Fx where "Fx = K W (warp td) 0 0 * 0.5"
  define Fy where "Fy = K W (warp td) 1 1 * 0.5"
  define jac0 where "jac0 = resize (N * NumChannels CN) (indeterminate_Jacobian W) (jacobians td)"
  define pix0 where "pix0 = resize (N * NumChannels CN) 0 (pixels td)"
  define J where "J = (\<lambda>c. jacobian_value Fx Fy (cols smap) (ptr (channels ! c)) Jw inds)"
  define P where "P = (\<lambda>c. pixel_value (ptr (channels ! c)) inds)"
  have inds: "inds = getValidPixelsLocations (DisparityPyramidLevel D (pyr_level td)) smap 1
      (MIN_NUM_FOR_PIXEL_PSELECTION AP \<le> rows smap * cols smap)"
    by (simp add: inds_def selected_def smap_def Let_def)
  have nc: "length channels = NumChannels CN" using ok by (simp add: Channels_ok_def)
  let ?step = "\<lambda>c s. (fill_block (c * N) N (J c) (fst s), fill_block (c * N) N (P c) (snd s))"
  let ?I = "\<lambda>t :: real list list \<times> real list.
              length (fst t) = N * NumChannels CN \<and> length (snd t) = N * NumChannels CN"
  have loop: "for_loop [0..<length channels]
          (extract_channel Fx Fy (cols smap) channels Jw inds) (jac0, pix0) =
        Inr (fold ?step [0..<length channels] (jac0, pix0)) \<and>
        ?I (fold ?step [0..<length channels] (jac0, pix0))"
  proof (rule for_loop_fold [where I = ?I])
    show "?I (jac0, pix0)" by (simp add: jac0_def pix0_def)
  next
    fix c and t :: "real list list \<times> real list"
    assume c: "c \<in> set [0..<length channels]" and t: "?I t"
    then have c': "c < length channels" by simp
    have "Suc c * N \<le> NumChannels CN * N" using c' nc by (intro mult_le_mono1) simp
    then have blk: "c * N + N \<le> N * NumChannels CN" by (simp add: mult.commute)
    have "extract_channel Fx Fy (cols smap) channels Jw inds c t = Inr (?step c t)"
      unfolding J_def P_def N_def
    proof (rule extract_channel_ok)
      show "c * length inds + length inds \<le> length (fst t)"
        using blk t by (simp add: N_def)
      show "c * length inds + length inds \<le> length (snd t)"
        using blk t by (simp add: N_def)
    next
      fix i
      assume "i < length inds"
      then show "0 < cols smap \<and> 0 \<le> fst (inds ! i) - cols smap \<and>
          fst (inds ! i) + cols smap < int (length (ptr (channels ! c)))"
        using selected_nth_bounds [of i "DisparityPyramidLevel D (pyr_level td)" smap]
          Channels_ok_nth(2) [OF ok c']
        unfolding inds smap_def by simp
    qed
    then show "extract_channel Fx Fy (cols smap) channels Jw inds c t = Inr (?step c t) \<and>
        ?I (?step c t)"
      using t by simp
  qed
  have pts: "fold (set_point W (warp td) (cols smap) inds) [0..<length inds]
      (resize (length inds) (indeterminate_Point W) (points td)) = pts"
    by (simp add: points_loop pts_def)
  have len: "length pts = N" by (simp add: pts_def N_def)
  have Fx: "K W (warp td) 0 0 / 2 = Fx" by (simp add: Fx_def)
  have Fy: "K W (warp td) (Suc 0) (Suc 0) / 2 = Fy" by (simp add: Fy_def)
  have "setData AP CN W channels D td =
      Inr (td\<lparr>jacobians := fst (fold ?step [0..<length channels] (jac0, pix0)) @ [Jacobian_Zero W],
              points := pts,
              pixels := snd (fold ?step [0..<length channels] (jac0, pix0))\<rparr>)"
    using fl loop pts
    by (simp add: setData_def Let_def smap_def [symmetric] inds [symmetric] len
        Jw_def [symmetric] Fx Fy N_def [symmetric]
        jac0_def [symmetric] pix0_def [symmetric])
  moreover have "fold ?step cs s =
      (fold (\<lambda>c. fill_block (c * N) N (J c)) cs (fst s),
       fold (\<lambda>c. fill_block (c * N) N (P c)) cs (snd s))" for cs s
    using fold_pair [of "\<lambda>c. fill_block (c * N) N (J c)" "\<lambda>c. fill_block (c * N) N (P c)" cs s]
    by simp
  ultimately have "setData AP CN W channels D td =
      Inr (td\<lparr>jacobians := fill_blocks (NumChannels CN) N J jac0 @ [Jacobian_Zero W],
              points := pts,
              pixels := fill_blocks (NumChannels CN) N P pix0\<rparr>)"
    by (simp add: nc fill_blocks_def)
  then show ?thesis
    unfolding J_def P_def jac0_def pix0_def Fx_def Fy_def Jw_def pts_def N_def inds_def smap_def
    by (simp add: Let_def fill_blocks_def)
qed

lemma extract_pixel_length:
  "extract_pixel Fx Fy stride c_ptr Jw inds off i s = Inr s' \<Longrightarrow>
   length (fst s') = length (fst s) \<and> length (snd s') = length (snd s)"
  by (auto simp: extract_pixel_def bind_r_def Let_def split: sum.splits dest: wr_length)

lemma extract_channel_length:
  assumes "extract_channel Fx Fy stride channels Jw inds c s = Inr s'"
  shows "length (fst s') = length (fst s) \<and> length (snd s') = length (snd s)"
  using assms unfolding extract_channel_def
  by (rule for_loop_preserves
        [where I = "\<lambda>t. length (fst t) = length (fst s) \<and> length (snd t) = length (snd s)"])
     (auto dest: extract_pixel_length)

lemma setData_shape:
  assumes "setData AP CN W channels D td = Inr td'"
  shows "points td' = map (point_of W (warp td) (cols (computeSaliencyMap CN channels)))
                        (selected AP CN channels D (pyr_level td))"
    and "length (pixels td') = length (selected AP CN channels D (pyr_level td)) * NumChannels CN"
    and "\<exists>js. jacobians td' = js @ [Jacobian_Zero W] \<and>
              length js = length (selected AP CN channels D (pyr_level td)) * NumChannels CN"
    and "warp td' = warp td" and "pyr_level td' = pyr_level td"
proof -
  define smap where "smap = computeSaliencyMap CN channels"
  define inds where "inds = selected AP CN channels D (pyr_level td)"
  define pts where "pts = map (point_of W (warp td) (cols smap)) inds"
  define jac0 where
    "jac0 = resize (length inds * NumChannels CN) (indeterminate_Jacobian W) (jacobians td)"
  define pix0 where "pix0 = resize (length inds * NumChannels CN) 0 (pixels td)"
  have inds: "getValidPixelsLocations (DisparityPyramidLevel D (pyr_level td)) smap 1
      (MIN_NUM_FOR_PIXEL_PSELECTION AP \<le> rows smap * cols smap) = inds"
    by (simp add: inds_def selected_def smap_def Let_def)
  have pts: "fold (set_point W (warp td) (cols smap) inds) [0..<length inds]
      (resize (length inds) (indeterminate_Point W) (points td)) = pts"
    by (simp add: points_loop pts_def)
  have len: "length pts = length inds" by (simp add: pts_def)
  obtain s where s: "for_loop [0..<length channels]
        (extract_channel (K W (warp td) 0 0 / 2) (K W (warp td) (Suc 0) (Suc 0) / 2) (cols smap)
           channels (map (warpJacobianAtZero W (warp td)) pts) inds) (jac0, pix0) = Inr s"
    and out: "td' = td\<lparr>jacobians := fst s @ [Jacobian_Zero W], points := pts, pixels := snd s\<rparr>"
    using assms
    by (auto simp: setData_def Let_def smap_def [symmetric] inds pts len
        jac0_def [symmetric] pix0_def [symmetric] bind_r_def split: if_splits sum.splits)
  have "length (fst s) = length inds * NumChannels CN \<and>
        length (snd s) = length inds * NumChannels CN"
    using s
    by (rule for_loop_preserves
          [where I = "\<lambda>t. length (fst t) = length inds * NumChannels CN \<and>
                           length (snd t) = length inds * NumChannels CN"])
       (auto simp: jac0_def pix0_def dest: extract_channel_length)
  then show "points td' = map (point_of W (warp td) (cols (computeSaliencyMap CN channels)))
                        (selected AP CN channels D (pyr_level td))"
    and "length (pixels td') = length (selected AP CN channels D (pyr_level td)) * NumChannels CN"
    and "\<exists>js. jacobians td' = js @ [Jacobian_Zero W] \<and>
              length js = length (selected AP CN channels D (pyr_level td)) * NumChannels CN"
    and "warp td' = warp td" and "pyr_level td' = pyr_level td"
    using out by (simp_all add: pts_def inds_def smap_def)
qed

lemma setData_returns:
  assumes "Channels_ok CN channels" "type_is_float D"
  shows "\<exists>td'. setData AP CN W channels D td = Inr td'"
  by (simp add: setData_result [OF assms] Let_def)

lemma setData_values:
  assumes "Channels_ok CN channels" "type_is_float D"
    and "setData AP CN W channels D td = Inr td'"
    and "c < NumChannels CN" and "i < length (selected AP CN channels D (pyr_level td))"
  shows "pixels td' ! (c * length (selected AP CN channels D (pyr_level td)) + i) =
           ptr (channels ! c) ! nat (fst (selected AP CN channels D (pyr_level td) ! i))"
    and "jacobians td' ! (c * length (selected AP CN channels D (pyr_level td)) + i) =
           jacobian_value (K W (warp td) 0 0 / 2) (K W (warp td) 1 1 / 2)
             (cols (computeSaliencyMap CN channels)) (ptr (channels ! c))
             (map (warpJacobianAtZero W (warp td)) (points td'))
             (selected AP CN channels D (pyr_level td)) i"
proof -
  define inds where "inds = selected AP CN channels D (pyr_level td)"
  define N where "N = length inds"
  define stride where "stride = cols (computeSaliencyMap CN channels)"
  define pts where "pts = map (point_of W (warp td) stride) inds"
  define Jw where "Jw = map (warpJacobianAtZero W (warp td)) pts"
  define Fx where "Fx = K W (warp td) 0 0 / 2"
  define Fy where "Fy = K W (warp td) 1 1 / 2"
  define J where "J = (\<lambda>c. jacobian_value Fx Fy stride (ptr (channels ! c)) Jw inds)"
  define P where "P = (\<lambda>c. pixel_value (ptr (channels ! c)) inds)"
  define jac0 where "jac0 = resize (N * NumChannels CN) (indeterminate_Jacobian W) (jacobians td)"
  define pix0 where "pix0 = resize (N * NumChannels CN) 0 (pixels td)"
  have "setData AP CN W channels D td =
      Inr (td\<lparr>jacobians := fill_blocks (NumChannels CN) N J jac0 @ [Jacobian_Zero W],
              points := pts, pixels := fill_blocks (NumChannels CN) N P pix0\<rparr>)"
    unfolding J_def P_def jac0_def pix0_def Fx_def Fy_def Jw_def pts_def N_def inds_def
      stride_def
    by (simp add: setData_result [OF assms(1,2)] Let_def)
  then have td': "td' = td\<lparr>jacobians := fill_blocks (NumChannels CN) N J jac0 @ [Jacobian_Zero W],
      points := pts, pixels := fill_blocks (NumChannels CN) N P pix0\<rparr>"
    using assms(3) by simp
  have c: "c < NumChannels CN" and i: "i < N" using assms(4,5) by (simp_all add: N_def inds_def)
  have lt: "c * N + i < NumChannels CN * N" using c i by (rule block_index_less)
  have le: "NumChannels CN * N \<le> length jac0" "NumChannels CN * N \<le> length pix0"
    by (simp_all add: jac0_def pix0_def mult.commute)
  have "pixels td' ! (c * N + i) = P c i"
    using nth_fill_blocks [OF c i le(2)] by (simp add: td')
  moreover have "jacobians td' ! (c * N + i) = J c i"
    using nth_fill_blocks [OF c i le(1)] lt le(1) by (simp add: td' nth_append)
  moreover have "Jw = map (warpJacobianAtZero W (warp td)) (points td')"
    by (simp add: Jw_def td')
  ultimately show
    "pixels td' ! (c * length (selected AP CN channels D (pyr_level td)) + i) =
           ptr (channels ! c) ! nat (fst (selected AP CN channels D (pyr_level td) ! i))"
    and "jacobians td' ! (c * length (selected AP CN channels D (pyr_level td)) + i) =
           jacobian_value (K W (warp td) 0 0 / 2) (K W (warp td) 1 1 / 2)
             (cols (computeSaliencyMap CN channels)) (ptr (channels ! c))
             (map (warpJacobianAtZero W (warp td)) (points td'))
             (selected AP CN channels D (pyr_level td)) i"
    by (simp_all add: P_def J_def pixel_value_def N_def inds_def Fx_def Fy_def stride_def)
qed

lemma floor_int_plus_half: "\<lfloor>real_of_int x + 1/2\<rfloor> = x"
  by (rule floor_unique) simp_all

lemma geometry_at_integer:
  assumes "i < length pts" "project W w (pts ! i) = (real_of_int x, real_of_int y)"
  shows "fst (geometry W w ch0 pts) ! i = (x, y)"
    and "(fst (snd (geometry W w ch0 pts)) ! i \<noteq> 0) =
           (0 \<le> x \<and> x < cols ch0 - 1 \<and> 0 \<le> y \<and> y < rows ch0 - 1)"
    and "snd (snd (geometry W w ch0 pts)) ! i = (1, 0, 0, 0)"
  using geometry_nth [OF assms(1), of W w ch0] assms(2)
  by (simp_all add: floor_int_plus_half Let_def)

subsection \<open>Extraction in the arithmetic of the source\<close>





lemma setData_fp_exact:
  "setData_fp exact AP CN W channels D td = setData AP CN W channels D td"
proof -
  have p: "extract_pixel_fp exact Fx Fy stride c_ptr Jw inds off =
      extract_pixel Fx Fy stride c_ptr Jw inds off" for Fx Fy stride c_ptr Jw inds off
    by (simp add: fun_eq_iff extract_pixel_fp_def extract_pixel_def exact_def)
  have c: "extract_channel_fp exact Fx Fy stride channels Jw inds =
      extract_channel Fx Fy stride channels Jw inds" for Fx Fy stride Jw inds
    by (simp add: fun_eq_iff extract_channel_fp_def extract_channel_def p)
  have k: "f_mul exact a (1/2) = a * 0.5" for a by (simp add: exact_def)
  show ?thesis
    by (simp add: setData_fp_def setData_def c k)
qed

subsection \<open>Extraction on the small instance\<close>

lemma replicate_numeral: "replicate (numeral k) x = x # replicate (pred_numeral k) x"
  by (simp add: numeral_eq_Suc)

lemma ex_selected: "selected ex_AP ex_CN ex_channels ex_D 0 = [(16, 1), (17, 1)]"
  by (simp add: selected_def ex_AP_def ex_CN_def ex_channels_def ex_D_def Let_def
      getValidPixelsLocations_def scan_rows_eq is_pixel_valid_no_nms upto_rec_numeral)

lemma ex_Channels_ok: "Channels_ok ex_CN ex_channels"
  by (simp add: Channels_ok_def grid_ok_def ex_CN_def ex_channels_def)

lemma ex_setData: "setData ex_AP ex_CN ex_W ex_channels ex_D ex_td0 = Inr ex_td"
  using ex_selected
  by (simp add: setData_def selected_def Let_def ex_AP_def ex_CN_def ex_channels_def ex_D_def
      ex_td0_def ex_td_def ex_W_def resize_def set_point_def ind2sub_def extract_channel_def
      extract_pixel_def rd_def wr_def gradient_times_def Jacobian_Zero_def replicate_numeral)

lemma ex_setData_again: "setData ex_AP ex_CN ex_W ex_channels ex_D ex_td = Inr ex_td"
  using ex_selected
  by (simp add: setData_def selected_def Let_def ex_AP_def ex_CN_def ex_channels_def ex_D_def
      ex_td_def ex_W_def resize_def set_point_def ind2sub_def extract_channel_def
      extract_pixel_def rd_def wr_def gradient_times_def Jacobian_Zero_def replicate_numeral)



subsection \<open>Extraction: the claims\<close>

text \<open>
  C5. Whenever \<^verbatim>\<open>setData\<close> returns, for any store it was called on (an empty one or
  one that an earlier call filled), with \<open>N\<close> the number of selected pixels:
  \<^verbatim>\<open>numPoints()\<close> is \<open>N\<close>, \<^verbatim>\<open>numPixels()\<close> is \<open>N * NumChannels\<close>, the Jacobian array
  has \<open>N * NumChannels + 1\<close> entries and its last entry is the zero row. For
  well-formed channels and a float disparity image \<^verbatim>\<open>setData\<close> returns.
\<close>

theorem setData_store_sizes:
  "(setData AP CN W channels D td = Inr td' \<longrightarrow>
      (let N = length (selected AP CN channels D (pyr_level td))
       in numPoints td' = N \<and> numPixels td' = N * NumChannels CN \<and>
          length (jacobians td') = N * NumChannels CN + 1 \<and>
          last (jacobians td') = replicate (NumParams W) 0)) \<and>
   (Channels_ok CN channels \<and> type_is_float D \<longrightarrow>
      (\<exists>td'. setData AP CN W channels D td = Inr td'))"
proof (intro conjI impI)
  assume r: "setData AP CN W channels D td = Inr td'"
  show "let N = length (selected AP CN channels D (pyr_level td))
       in numPoints td' = N \<and> numPixels td' = N * NumChannels CN \<and>
          length (jacobians td') = N * NumChannels CN + 1 \<and>
          last (jacobians td') = replicate (NumParams W) 0"
    using setData_shape(1,2,3) [OF r]
    by (auto simp: Let_def numPoints_def numPixels_def Jacobian_Zero_def)
next
  assume "Channels_ok CN channels \<and> type_is_float D"
  then show "\<exists>td'. setData AP CN W channels D td = Inr td'"
    using setData_returns [of CN channels D AP W td] by blast
qed

theorem setData_store_sizes_witness:
  "setData ex_AP ex_CN ex_W ex_channels ex_D ex_td = Inr ex_td \<and>
   numPoints ex_td = 2 \<and> numPixels ex_td = 2 * NumChannels ex_CN \<and>
   length (jacobians ex_td) = 2 * NumChannels ex_CN + 1 \<and>
   last (jacobians ex_td) = replicate (NumParams ex_W) 0 \<and>
   Channels_ok ex_CN ex_channels \<and> type_is_float ex_D \<and>
   (\<exists>td'. setData ex_AP ex_CN ex_W ex_channels ex_D ex_td = Inr td')"
proof -
  have fl: "type_is_float ex_D" by (simp add: ex_D_def)
  note t = setData_store_sizes [of ex_AP ex_CN ex_W ex_channels ex_D ex_td ex_td]
  have "numPoints ex_td = 2 \<and> numPixels ex_td = 2 * NumChannels ex_CN \<and>
   length (jacobians ex_td) = 2 * NumChannels ex_CN + 1 \<and>
   last (jacobians ex_td) = replicate (NumParams ex_W) 0"
    using t [THEN conjunct1, rule_format, OF ex_setData_again]
    by (simp add: Let_def ex_td_def ex_CN_def ex_W_def numPoints_def numPixels_def
        replicate_numeral)
  moreover have "\<exists>td'. setData ex_AP ex_CN ex_W ex_channels ex_D ex_td = Inr td'"
    using t [THEN conjunct2] ex_Channels_ok fl by blast
  ultimately show ?thesis using ex_setData_again ex_Channels_ok fl by blast
qed



text \<open>
  C4. Identity-pose round trip. Let \<^verbatim>\<open>setData\<close> fill the store from well-formed
  channels, and let \<^verbatim>\<open>computeResiduals\<close> be called with the same channels and a pose
  at which the warp projects every stored point to the integer location \<open>(x, y)\<close> it
  was sampled at (its linear index is \<open>y * stride + x\<close> with \<open>0 \<le> x < stride\<close>). Then \<^verbatim>\<open>computeResiduals\<close> returns, every point is flagged valid
  and the residual of every point in every channel is 0.
\<close>

theorem identity_pose_round_trip:
  assumes ok: "Channels_ok CN channels" and fl: "type_is_float D"
    and stored: "setData AP CN W channels D td0 = Inr td"
    and home: "\<forall>i<numPoints td. \<exists>x y.
        fst (selected AP CN channels D (pyr_level td0) ! i) =
          y * cols (computeSaliencyMap CN channels) + x \<and>
        0 \<le> x \<and> x < cols (computeSaliencyMap CN channels) \<and>
        project W (setPose W (warp td) pose) (points td ! i) = (real_of_int x, real_of_int y)"
  shows "\<exists>td' res val.
     computeResiduals W channels pose residuals valid td = Inr (td', res, val) \<and>
     (\<forall>i<numPoints td. val ! i \<noteq> 0 \<and>
        (\<forall>c<NumChannels CN. res ! (c * numPoints td + i) = 0))"
proof -
  define smap where "smap = computeSaliencyMap CN channels"
  define inds where "inds = selected AP CN channels D (pyr_level td0)"
  define w where "w = setPose W (warp td) pose"
  define g where "g = geometry W w (hd channels) (points td)"
  have grid: "grid_ok channels" and nc: "length channels = NumChannels CN"
    and rs: "rows smap = rows (hd channels)" and cs: "cols smap = cols (hd channels)"
    using ok by (simp_all add: Channels_ok_def smap_def)
  have n: "numPoints td = length inds"
    using setData_shape(1) [OF stored] by (simp add: numPoints_def inds_def)
  have px: "numPixels td = numPoints td * length channels"
    using setData_shape(2) [OF stored] by (simp add: numPixels_def n nc inds_def)
  obtain res where r: "computeResiduals W channels pose residuals valid td =
        Inr (td\<lparr>warp := w\<rparr>, res, fst (snd g))"
    and v: "\<forall>c<length channels. \<forall>i<numPoints td.
        res ! (c * numPoints td + i) =
          residual_value (fst g) (fst (snd g)) (snd (snd g)) (pixels td)
            (ptr (channels ! c)) (cols (channels ! c)) (c * numPoints td) i"
    using computeResiduals_returns [OF grid px, of W pose residuals valid]
    unfolding w_def g_def by blast
  have "fst (snd g) ! i \<noteq> 0 \<and> (\<forall>c<NumChannels CN. res ! (c * numPoints td + i) = 0)"
    if i: "i < numPoints td" for i
  proof -
    have i': "i < length inds" using i n by simp
    have inds': "inds = getValidPixelsLocations (DisparityPyramidLevel D (pyr_level td0)) smap 1
        (MIN_NUM_FOR_PIXEL_PSELECTION AP \<le> rows smap * cols smap)"
      by (simp add: inds_def selected_def smap_def Let_def)
    obtain y x where cell: "fst (inds ! i) = y * cols smap + x"
      "2 \<le> y" "y \<le> rows smap - 4" "2 \<le> x" "x \<le> cols smap - 4"
      using selected_nth_cell [of i "DisparityPyramidLevel D (pyr_level td0)" smap
          "MIN_NUM_FOR_PIXEL_PSELECTION AP \<le> rows smap * cols smap"] i'
      unfolding inds' by blast
    obtain x' y' where loc: "fst (inds ! i) = y' * cols smap + x'" "0 \<le> x'" "x' < cols smap"
      and pr': "project W w (points td ! i) = (real_of_int x', real_of_int y')"
      using home i unfolding w_def smap_def inds_def by blast
    have "(y' * cols smap + x') div cols smap = (y * cols smap + x) div cols smap"
      "(y' * cols smap + x') mod cols smap = (y * cols smap + x) mod cols smap"
      using loc(1) cell(1) by simp_all
    then have "y' = y" "x' = x"
      using loc(2,3) cell(4,5) by simp_all
    then have pr: "project W w (points td ! i) = (real_of_int x, real_of_int y)"
      using pr' by simp
    have il: "i < length (points td)" using i by (simp add: numPoints_def)
    have uv: "fst g ! i = (x, y)" and co: "snd (snd g) ! i = (1, 0, 0, 0)"
      and flag: "fst (snd g) ! i \<noteq> 0"
      using geometry_at_integer [OF il pr, of "hd channels"] cell rs cs
      by (simp_all add: g_def)
    have "res ! (c * numPoints td + i) = 0" if c: "c < NumChannels CN" for c
    proof -
      have c': "c < length channels" using c nc by simp
      have "pixels td ! (c * numPoints td + i) = ptr (channels ! c) ! nat (fst (inds ! i))"
        using setData_values(1) [OF ok fl stored c] i' by (simp add: n inds_def)
      moreover have "cols (channels ! c) = cols smap"
        using Channels_ok_nth(1) [OF ok c'] by (simp add: smap_def)
      ultimately show ?thesis
        using v c' i flag uv co cell(1)
        by (simp add: residual_value_def dot4_def Let_def)
    qed
    then show ?thesis using flag by blast
  qed
  then show ?thesis using r by blast
qed

theorem identity_pose_round_trip_witness:
  "Channels_ok ex_CN ex_channels \<and> type_is_float ex_D \<and>
   setData ex_AP ex_CN ex_W ex_channels ex_D ex_td0 = Inr ex_td \<and>
   (\<exists>td' res val.
      computeResiduals ex_W ex_channels (0, 0) [5] [] ex_td = Inr (td', res, val) \<and>
      val ! 0 \<noteq> 0 \<and> val ! 1 \<noteq> 0 \<and>
      res ! (0 * numPoints ex_td + 0) = 0 \<and> res ! (1 * numPoints ex_td + 1) = 0)"
proof -
  have fl: "type_is_float ex_D" by (simp add: ex_D_def)
  have lv: "pyr_level ex_td0 = 0" by (simp add: ex_td0_def)
  have n: "numPoints ex_td = 2" by (simp add: numPoints_def ex_td_def)
  have "\<exists>x y. fst (selected ex_AP ex_CN ex_channels ex_D (pyr_level ex_td0) ! i) =
          y * cols (computeSaliencyMap ex_CN ex_channels) + x \<and>
        0 \<le> x \<and> x < cols (computeSaliencyMap ex_CN ex_channels) \<and>
        project ex_W (setPose ex_W (warp ex_td) (0, 0)) (points ex_td ! i) =
          (real_of_int x, real_of_int y)"
    if lt: "i < numPoints ex_td" for i
  proof -
    consider "i = 0" | "i = 1" using lt n by linarith
    then show ?thesis
    proof cases
      case 1
      then show ?thesis
        unfolding lv ex_selected
        by (intro exI [of _ 2])
           (simp add: ex_W_def ex_td_def ex_CN_def ex_channels_def)
    next
      case 2
      then show ?thesis
        unfolding lv ex_selected
        by (intro exI [of _ 3] exI [of _ 2])
           (simp add: ex_W_def ex_td_def ex_CN_def ex_channels_def)
    qed
  qed
  then have home: "\<forall>i<numPoints ex_td. \<exists>x y.
        fst (selected ex_AP ex_CN ex_channels ex_D (pyr_level ex_td0) ! i) =
          y * cols (computeSaliencyMap ex_CN ex_channels) + x \<and>
        0 \<le> x \<and> x < cols (computeSaliencyMap ex_CN ex_channels) \<and>
        project ex_W (setPose ex_W (warp ex_td) (0, 0)) (points ex_td ! i) =
          (real_of_int x, real_of_int y)"
    by blast
  obtain td' res val where
    r: "computeResiduals ex_W ex_channels (0, 0) [5] [] ex_td = Inr (td', res, val)"
    and z: "\<forall>i<numPoints ex_td. val ! i \<noteq> 0 \<and>
        (\<forall>c<NumChannels ex_CN. res ! (c * numPoints ex_td + i) = 0)"
    using identity_pose_round_trip [OF ex_Channels_ok fl ex_setData home, of "[5]" "[]"]
    by blast
  have c: "0 < NumChannels ex_CN" "1 < NumChannels ex_CN" by (simp_all add: ex_CN_def)
  have i: "0 < numPoints ex_td" "1 < numPoints ex_td" by (simp_all add: n)
  have "val ! 0 \<noteq> 0" "val ! 1 \<noteq> 0"
    using z [rule_format, OF i(1)] z [rule_format, OF i(2)] by simp_all
  moreover have "res ! (0 * numPoints ex_td + 0) = 0"
    using z [rule_format, OF i(1), THEN conjunct2, rule_format, OF c(1)] .
  moreover have "res ! (1 * numPoints ex_td + 1) = 0"
    using z [rule_format, OF i(2), THEN conjunct2, rule_format, OF c(2)] .
  ultimately have "val ! 0 \<noteq> 0 \<and> val ! 1 \<noteq> 0 \<and>
      res ! (0 * numPoints ex_td + 0) = 0 \<and> res ! (1 * numPoints ex_td + 1) = 0"
    by blast
  then show ?thesis using r fl ex_Channels_ok ex_setData by blast
qed

end
